theory Spec2Isabelle
  imports Complex_Main
begin

section \<open>JavaScript numbers\<close>

text \<open>
  The script computes with JavaScript numbers. A number is modelled as a real, one of the
  two infinities, or NaN. Arithmetic on finite values is exact real arithmetic in the
  operations of this section: rounding to the nearest double, overflow and the sign of
  zero are not modelled, and \<^verbatim>\<open>Math.PI\<close> is the real number pi. The rounded
  operations, and the step of the walker computed with them, follow further down.
\<close>

datatype jsnum = Fin real | PInf | NInf | NaN

text \<open>The infinity with the sign of a real; \<open>0 * Infinity\<close> and \<open>0 / 0\<close> are NaN.\<close>

definition inf_of :: "real \<Rightarrow> jsnum" where
  "inf_of r = (if 0 < r then PInf else if r < 0 then NInf else NaN)"

fun sign_of :: "jsnum \<Rightarrow> real" where
  "sign_of (Fin a) = sgn a"
| "sign_of PInf = 1"
| "sign_of NInf = - 1"
| "sign_of NaN = 0"

fun js_add :: "jsnum \<Rightarrow> jsnum \<Rightarrow> jsnum" where
  "js_add (Fin a) (Fin b) = Fin (a + b)"
| "js_add NaN _ = NaN"
| "js_add _ NaN = NaN"
| "js_add PInf NInf = NaN"
| "js_add NInf PInf = NaN"
| "js_add PInf _ = PInf"
| "js_add _ PInf = PInf"
| "js_add NInf _ = NInf"
| "js_add _ NInf = NInf"

fun js_neg :: "jsnum \<Rightarrow> jsnum" where
  "js_neg (Fin a) = Fin (- a)"
| "js_neg PInf = NInf"
| "js_neg NInf = PInf"
| "js_neg NaN = NaN"

definition js_sub :: "jsnum \<Rightarrow> jsnum \<Rightarrow> jsnum" where
  "js_sub a b = js_add a (js_neg b)"

fun js_mul :: "jsnum \<Rightarrow> jsnum \<Rightarrow> jsnum" where
  "js_mul (Fin a) (Fin b) = Fin (a * b)"
| "js_mul NaN _ = NaN"
| "js_mul _ NaN = NaN"
| "js_mul a b = inf_of (sign_of a * sign_of b)"

text \<open>Division; a zero divisor is taken as \<open>+0\<close>.\<close>

fun js_div :: "jsnum \<Rightarrow> jsnum \<Rightarrow> jsnum" where
  "js_div (Fin a) (Fin b) = (if b = 0 then inf_of a else Fin (a / b))"
| "js_div NaN _ = NaN"
| "js_div _ NaN = NaN"
| "js_div (Fin a) _ = Fin 0"
| "js_div a (Fin b) = inf_of (sign_of a * (if b < 0 then - 1 else 1))"
| "js_div _ _ = NaN"

text \<open>\<^verbatim>\<open>Math.min\<close> and \<^verbatim>\<open>Math.max\<close> of two arguments: NaN if either is NaN.\<close>

fun js_min :: "jsnum \<Rightarrow> jsnum \<Rightarrow> jsnum" where
  "js_min (Fin a) (Fin b) = Fin (min a b)"
| "js_min NaN _ = NaN"
| "js_min _ NaN = NaN"
| "js_min NInf _ = NInf"
| "js_min _ NInf = NInf"
| "js_min PInf b = b"
| "js_min a PInf = a"

fun js_max :: "jsnum \<Rightarrow> jsnum \<Rightarrow> jsnum" where
  "js_max (Fin a) (Fin b) = Fin (max a b)"
| "js_max NaN _ = NaN"
| "js_max _ NaN = NaN"
| "js_max PInf _ = PInf"
| "js_max _ PInf = PInf"
| "js_max NInf b = b"
| "js_max a NInf = a"

fun js_cos :: "jsnum \<Rightarrow> jsnum" where
  "js_cos (Fin a) = Fin (cos a)"
| "js_cos _ = NaN"

fun js_sin :: "jsnum \<Rightarrow> jsnum" where
  "js_sin (Fin a) = Fin (sin a)"
| "js_sin _ = NaN"

definition Math_PI :: jsnum where
  "Math_PI = Fin pi"

text \<open>The operator \<^verbatim>\<open>!=\<close> on two numbers: NaN is unequal to everything, itself included.\<close>

fun js_ne :: "jsnum \<Rightarrow> jsnum \<Rightarrow> bool" where
  "js_ne NaN _ = True"
| "js_ne _ NaN = True"
| "js_ne a b = (a \<noteq> b)"

text \<open>A number used as a condition: false for zero and NaN.\<close>

fun num_truthy :: "jsnum \<Rightarrow> bool" where
  "num_truthy (Fin a) = (a \<noteq> 0)"
| "num_truthy NaN = False"
| "num_truthy _ = True"

section \<open>The script's data\<close>

text \<open>A \<^verbatim>\<open>Point\<close> is \<^verbatim>\<open>{x, y}\<close>; the fields are named \<open>px\<close> and \<open>py\<close> here.\<close>

record point =
  px :: jsnum
  py :: jsnum

record WindowData =
  centerX :: jsnum
  centerY :: jsnum
  width :: jsnum
  height :: jsnum
  maxSize :: jsnum
  scaleFactor :: jsnum

text \<open>
  The 2D context is modelled by the list of the calls and property assignments made on
  it, oldest first.
\<close>

datatype ctx_call =
    SetLineCap string
  | SetLineWidth jsnum
  | SetFillStyle string
  | SetStrokeStyle string
  | FillRect jsnum jsnum jsnum jsnum
  | Save
  | Restore
  | Translate jsnum jsnum
  | BeginPath
  | MoveTo jsnum jsnum
  | LineTo jsnum jsnum
  | Stroke

text \<open>
  \<^verbatim>\<open>resetAfterChange\<close> starts as the boolean false and is later assigned
  \<^verbatim>\<open>ev.target.value\<close>, a string.
\<close>

datatype jsval = JBool bool | JStr string

fun truthy :: "jsval \<Rightarrow> bool" where
  "truthy (JBool b) = b"
| "truthy (JStr s) = (s \<noteq> [])"

datatype error = TypeError

text \<open>
  The module's variables. \<open>timer\<close> holds the delay of the pending
  \<^verbatim>\<open>setTimeout(drawHandler, ...)\<close>, if one is pending.
\<close>

record state =
  ctx :: "ctx_call list"
  drawsPerFrame :: jsnum
  frameRate :: jsnum
  stepSize :: jsnum
  angleStepSize :: jsnum
  points :: "point list"
  running :: bool
  pointX :: jsnum
  pointY :: jsnum
  direction :: jsnum
  angleAddend :: jsnum
  minX :: jsnum
  maxX :: jsnum
  minY :: jsnum
  maxY :: jsnum
  stepAmount :: jsnum
  resetAfterChange :: jsval
  timer :: "jsnum option"

definition screenWidth :: jsnum where
  "screenWidth = Fin 600"

definition screenHeight :: jsnum where
  "screenHeight = Fin 600"

section \<open>Window data and the point transform\<close>

definition getWindowData :: "state \<Rightarrow> WindowData" where
  "getWindowData s =
    (let centerX = js_div (js_add (minX s) (maxX s)) (Fin 2);
         centerY = js_div (js_add (minY s) (maxY s)) (Fin 2);
         width = js_sub (maxX s) (minX s);
         height = js_sub (maxY s) (minY s);
         maxSize = js_max width height;
         scaleFactor = js_div maxSize (js_max screenWidth screenHeight)
     in \<lparr>centerX = centerX, centerY = centerY, width = width, height = height,
         maxSize = maxSize, scaleFactor = scaleFactor\<rparr>)"

definition transformPoint :: "jsnum \<Rightarrow> jsnum \<Rightarrow> WindowData \<Rightarrow> point" where
  "transformPoint x y win =
    (let x' = js_mul (js_div (js_sub x (centerX win)) (js_add (maxSize win) (Fin 10)))
                (js_max screenWidth screenHeight);
         y' = js_mul (js_div (js_sub y (centerY win)) (js_add (maxSize win) (Fin 10)))
                (js_max screenWidth screenHeight)
     in \<lparr>px = x', py = y'\<rparr>)"

section \<open>clear, update, draw, reset\<close>

definition clear :: "state \<Rightarrow> state" where
  "clear s = s\<lparr>ctx := ctx s @
     [SetFillStyle ''black'', FillRect (Fin 0) (Fin 0) screenWidth screenHeight]\<rparr>"

definition update :: "state \<Rightarrow> state" where
  "update s =
    (let pointX' = js_add (pointX s)
           (js_mul (js_cos (js_div (js_mul (direction s) Math_PI) (Fin 180))) (stepSize s));
         pointY' = js_add (pointY s)
           (js_mul (js_sin (js_div (js_mul (direction s) Math_PI) (Fin 180))) (stepSize s));
         direction' = js_add (direction s) (angleAddend s);
         angleAddend' = js_add (angleAddend s) (angleStepSize s)
     in s\<lparr>pointX := pointX', pointY := pointY',
          direction := direction', angleAddend := angleAddend',
          points := points s @ [\<lparr>px = pointX', py = pointY'\<rparr>],
          minX := js_min (minX s) pointX',
          maxX := js_max (maxX s) pointX',
          minY := js_min (minY s) pointY',
          maxY := js_max (maxY s) pointY'\<rparr>)"

text \<open>
  \<^verbatim>\<open>draw\<close> reads \<^verbatim>\<open>points[0].x\<close> without a check: on an empty array
  \<^verbatim>\<open>points[0]\<close> is undefined and the property read throws a TypeError, after the
  calls up to \<^verbatim>\<open>beginPath\<close> have been made. The error carries the state at the
  throw.
\<close>

definition lineTo_calls :: "WindowData \<Rightarrow> point list \<Rightarrow> ctx_call list" where
  "lineTo_calls win ps =
     map (\<lambda>point. let p = transformPoint (px point) (py point) win
                   in LineTo (px p) (py p)) ps"

definition draw :: "state \<Rightarrow> (error \<times> state) + state" where
  "draw s =
    (let s1 = clear s;
         s2 = s1\<lparr>ctx := ctx s1 @
                [Save, Translate (js_div screenWidth (Fin 2)) (js_div screenHeight (Fin 2))]\<rparr>;
         windowData = getWindowData s2;
         s3 = s2\<lparr>ctx := ctx s2 @ [SetStrokeStyle ''white'', BeginPath]\<rparr>
     in case points s3 of
          [] \<Rightarrow> Inl (TypeError, s3)
        | p0 # _ \<Rightarrow>
            (let p = transformPoint (px p0) (py p0) windowData
             in Inr (s3\<lparr>ctx := ctx s3 @ [MoveTo (px p) (py p)] @
                       lineTo_calls windowData (points s3) @ [Stroke, Restore]\<rparr>)))"

definition reset :: "state \<Rightarrow> (error \<times> state) + state" where
  "reset s =
    (let s1 = clear s;
         s2 = s1\<lparr>pointX := Fin 0, pointY := Fin 0, direction := Fin 0, angleAddend := Fin 0,
                minX := Fin 0, maxX := Fin 0, minY := Fin 0, maxY := Fin 0,
                points := []\<rparr>;
         s3 = update s2
     in draw s3)"

text \<open>
  The state once the script has been loaded: the initial values of the variables, the
  two context properties set at the top, the first \<^verbatim>\<open>clear()\<close>, and the first call of
  \<^verbatim>\<open>drawHandler\<close>, which only arms the timer since \<^verbatim>\<open>running\<close> is false.
\<close>

definition init :: state where
  "init = \<lparr>ctx = [SetLineCap ''round'', SetLineWidth (Fin 1),
                  SetFillStyle ''black'', FillRect (Fin 0) (Fin 0) screenWidth screenHeight],
           drawsPerFrame = Fin 1, frameRate = Fin 60,
           stepSize = Fin 20, angleStepSize = Fin 10,
           points = [], running = False,
           pointX = Fin 0, pointY = Fin 0, direction = Fin 0, angleAddend = Fin 0,
           minX = js_div (js_neg screenWidth) (Fin 2), maxX = js_div screenWidth (Fin 2),
           minY = js_div (js_neg screenHeight) (Fin 2), maxY = js_div screenHeight (Fin 2),
           stepAmount = Fin 1, resetAfterChange = JBool False,
           timer = Some (js_div (Fin 1000) (Fin 60))\<rparr>"

section \<open>The step in binary64 arithmetic\<close>

text \<open>
  The definitions above compute with exact reals. Where the rounding of the script's
  doubles matters, the step is taken again with every arithmetic result rounded as the
  platform rounds it: to the nearest binary64 number, ties to the even significand, with
  overflow to an infinity. \<open>fl64\<close> is that rounding of a real number.
\<close>

definition round_half_even :: "real \<Rightarrow> int" where
  "round_half_even r =
     (let f = \<lfloor>r\<rfloor>; d = r - of_int f
      in if d < 1 / 2 then f else if 1 / 2 < d then f + 1 else if even f then f else f + 1)"

definition fl64 :: "real \<Rightarrow> jsnum" where
  "fl64 x =
     (if x = 0 then Fin 0
      else let e = max \<lfloor>log 2 \<bar>x\<bar>\<rfloor> (- 1022);
               q = 2 powi (e - 52);
               y = of_int (round_half_even (x / q)) * q
           in if 2 ^ 1024 \<le> y then PInf else if y \<le> - (2 ^ 1024) then NInf else Fin y)"

fun js_add64 :: "jsnum \<Rightarrow> jsnum \<Rightarrow> jsnum" where
  "js_add64 (Fin a) (Fin b) = fl64 (a + b)"
| "js_add64 a b = js_add a b"

fun js_mul64 :: "jsnum \<Rightarrow> jsnum \<Rightarrow> jsnum" where
  "js_mul64 (Fin a) (Fin b) = fl64 (a * b)"
| "js_mul64 a b = js_mul a b"

fun js_div64 :: "jsnum \<Rightarrow> jsnum \<Rightarrow> jsnum" where
  "js_div64 (Fin a) (Fin b) = (if b = 0 then inf_of a else fl64 (a / b))"
| "js_div64 a b = js_div a b"

text \<open>
  \<^verbatim>\<open>Math.cos\<close> and \<^verbatim>\<open>Math.sin\<close> are approximations chosen by the platform; they are
  taken here as the rounded true values, which is what the standard fixes at 0.
  \<^verbatim>\<open>Math.PI\<close> is the binary64 number nearest to pi.
\<close>

fun js_cos64 :: "jsnum \<Rightarrow> jsnum" where
  "js_cos64 (Fin a) = fl64 (cos a)"
| "js_cos64 _ = NaN"

fun js_sin64 :: "jsnum \<Rightarrow> jsnum" where
  "js_sin64 (Fin a) = fl64 (sin a)"
| "js_sin64 _ = NaN"

definition Math_PI64 :: jsnum where
  "Math_PI64 = Fin (884279719003555 / 2 ^ 48)"

definition update64 :: "state \<Rightarrow> state" where
  "update64 s =
    (let pointX' = js_add64 (pointX s)
           (js_mul64 (js_cos64 (js_div64 (js_mul64 (direction s) Math_PI64) (Fin 180)))
              (stepSize s));
         pointY' = js_add64 (pointY s)
           (js_mul64 (js_sin64 (js_div64 (js_mul64 (direction s) Math_PI64) (Fin 180)))
              (stepSize s));
         direction' = js_add64 (direction s) (angleAddend s);
         angleAddend' = js_add64 (angleAddend s) (angleStepSize s)
     in s\<lparr>pointX := pointX', pointY := pointY',
          direction := direction', angleAddend := angleAddend',
          points := points s @ [\<lparr>px = pointX', py = pointY'\<rparr>],
          minX := js_min (minX s) pointX',
          maxX := js_max (maxX s) pointX',
          minY := js_min (minY s) pointY',
          maxY := js_max (maxY s) pointY'\<rparr>)"

section \<open>The timer callback and the control handlers\<close>

text \<open>
  The loop \<^verbatim>\<open>for (let i=n;i--;) update();\<close> tests the old value of \<open>i\<close>, decrements,
  and runs the body when the test held. It ends only when \<open>i\<close> reaches zero or is NaN;
  a run that never ends is the value \<open>None\<close>.
\<close>

partial_function (option) repeat_update :: "jsnum \<Rightarrow> state \<Rightarrow> state option" where
  "repeat_update i s =
     (if num_truthy i then repeat_update (js_sub i (Fin 1)) (update s) else Some s)"

definition drawHandler :: "state \<Rightarrow> ((error \<times> state) + state) option" where
  "drawHandler s =
     (if running s then
        (case repeat_update (drawsPerFrame s) s of
           None \<Rightarrow> None
         | Some s1 \<Rightarrow>
            (case draw s1 of
               Inl err \<Rightarrow> Some (Inl err)
             | Inr s2 \<Rightarrow> Some (Inr (s2\<lparr>timer := Some (js_div (Fin 1000) (frameRate s2))\<rparr>))))
      else Some (Inr (s\<lparr>timer := Some (js_div (Fin 1000) (frameRate s))\<rparr>)))"

definition tryClear :: "state \<Rightarrow> (error \<times> state) + state" where
  "tryClear s = (if truthy (resetAfterChange s) then reset s else Inr s)"

definition startHandler :: "state \<Rightarrow> state" where
  "startHandler s = s\<lparr>running := True\<rparr>"

definition stopHandler :: "state \<Rightarrow> state" where
  "stopHandler s = s\<lparr>running := False\<rparr>"

definition stepHandler :: "state \<Rightarrow> ((error \<times> state) + state) option" where
  "stepHandler s =
     (case repeat_update (stepAmount s) s of
        None \<Rightarrow> None
      | Some s1 \<Rightarrow> Some (draw s1))"

text \<open>
  The number inputs. \<^verbatim>\<open>parseInt\<close> and \<^verbatim>\<open>parseFloat\<close> are functions of the platform
  and are parameters here; \<open>v\<close> is \<^verbatim>\<open>ev.target.value\<close>.
\<close>

definition stepsHandler :: "(string \<Rightarrow> jsnum) \<Rightarrow> string \<Rightarrow> state \<Rightarrow> state" where
  "stepsHandler parseInt v s =
     (let value = parseInt v in if js_ne value NaN then s\<lparr>stepAmount := value\<rparr> else s)"

definition resetHandler :: "state \<Rightarrow> (error \<times> state) + state" where
  "resetHandler s = reset s"

definition framerateHandler :: "(string \<Rightarrow> jsnum) \<Rightarrow> string \<Rightarrow> state \<Rightarrow> state" where
  "framerateHandler parseInt v s =
     (let value = parseInt v in if js_ne value NaN then s\<lparr>frameRate := value\<rparr> else s)"

definition drawsPerFrameHandler :: "(string \<Rightarrow> jsnum) \<Rightarrow> string \<Rightarrow> state \<Rightarrow> state" where
  "drawsPerFrameHandler parseInt v s =
     (let value = parseInt v in if js_ne value NaN then s\<lparr>drawsPerFrame := value\<rparr> else s)"

definition stepSizeHandler :: "(string \<Rightarrow> jsnum) \<Rightarrow> string \<Rightarrow> state \<Rightarrow> state" where
  "stepSizeHandler parseFloat v s =
     (let value = parseFloat v in if js_ne value NaN then s\<lparr>stepSize := value\<rparr> else s)"

definition directionStepSizeHandler :: "(string \<Rightarrow> jsnum) \<Rightarrow> string \<Rightarrow> state \<Rightarrow> state" where
  "directionStepSizeHandler parseFloat v s =
     (let value = parseFloat v in if js_ne value NaN then s\<lparr>angleStepSize := value\<rparr> else s)"

definition resetOnChangeHandler :: "string \<Rightarrow> state \<Rightarrow> state" where
  "resetOnChangeHandler v s = s\<lparr>resetAfterChange := JStr v\<rparr>"

section \<open>Events\<close>

text \<open>
  What can happen to the loaded page: a control is used, or the pending timer fires.
  An exception thrown in a handler ends that handler and leaves the variables as they
  were at the throw. \<open>fire\<close> gives the state after the event; it is \<open>None\<close> when the
  handler never returns, and for the timer when none is pending.
\<close>

datatype event =
    ClickStart | ClickStop | ClickStep | ClickClear | ClickReset
  | InputSteps string | InputFramerate string | InputDrawsPerFrame string
  | InputStepSize string | InputDirectionStepSize string | InputResetOnChange string
  | TimerFires

fun outcome :: "(error \<times> state) + state \<Rightarrow> state" where
  "outcome (Inl (e, s)) = s"
| "outcome (Inr s) = s"

fun fire :: "(string \<Rightarrow> jsnum) \<Rightarrow> (string \<Rightarrow> jsnum) \<Rightarrow> event \<Rightarrow> state \<Rightarrow> state option" where
  "fire parseInt parseFloat ClickStart s = Some (startHandler s)"
| "fire parseInt parseFloat ClickStop s = Some (stopHandler s)"
| "fire parseInt parseFloat ClickStep s = map_option outcome (stepHandler s)"
| "fire parseInt parseFloat ClickClear s = Some (clear s)"
| "fire parseInt parseFloat ClickReset s = Some (outcome (resetHandler s))"
| "fire parseInt parseFloat (InputSteps v) s = Some (stepsHandler parseInt v s)"
| "fire parseInt parseFloat (InputFramerate v) s = Some (framerateHandler parseInt v s)"
| "fire parseInt parseFloat (InputDrawsPerFrame v) s = Some (drawsPerFrameHandler parseInt v s)"
| "fire parseInt parseFloat (InputStepSize v) s = Some (stepSizeHandler parseFloat v s)"
| "fire parseInt parseFloat (InputDirectionStepSize v) s =
     Some (directionStepSizeHandler parseFloat v s)"
| "fire parseInt parseFloat (InputResetOnChange v) s = Some (resetOnChangeHandler v s)"
| "fire parseInt parseFloat TimerFires s =
     (case timer s of
        None \<Rightarrow> None
      | Some d \<Rightarrow> map_option outcome (drawHandler (s\<lparr>timer := None\<rparr>)))"

fun run :: "(string \<Rightarrow> jsnum) \<Rightarrow> (string \<Rightarrow> jsnum) \<Rightarrow> event list \<Rightarrow> state \<Rightarrow> state option" where
  "run parseInt parseFloat [] s = Some s"
| "run parseInt parseFloat (e # es) s =
     (case fire parseInt parseFloat e s of
        None \<Rightarrow> None
      | Some s' \<Rightarrow> run parseInt parseFloat es s')"

section \<open>Notions used in the properties\<close>

text \<open>The walker at the origin with heading and increment zero, and no points.\<close>

definition fresh_generator :: "state \<Rightarrow> bool" where
  "fresh_generator s \<longleftrightarrow>
     direction s = Fin 0 \<and> angleAddend s = Fin 0 \<and> pointX s = Fin 0 \<and> pointY s = Fin 0 \<and>
     points s = []"

text \<open>The four extent variables, as (minX, maxX, minY, maxY).\<close>

definition extent :: "state \<Rightarrow> jsnum \<times> jsnum \<times> jsnum \<times> jsnum" where
  "extent s = (minX s, maxX s, minY s, maxY s)"

text \<open>Folding a point into a box, and a list of points into a starting box.\<close>

fun widen :: "jsnum \<times> jsnum \<times> jsnum \<times> jsnum \<Rightarrow> point \<Rightarrow> jsnum \<times> jsnum \<times> jsnum \<times> jsnum" where
  "widen (x0, x1, y0, y1) p = (js_min x0 (px p), js_max x1 (px p), js_min y0 (py p), js_max y1 (py p))"

definition box_hull :: "jsnum \<times> jsnum \<times> jsnum \<times> jsnum \<Rightarrow> point list \<Rightarrow> jsnum \<times> jsnum \<times> jsnum \<times> jsnum" where
  "box_hull b ps = foldl widen b ps"

text \<open>The componentwise minimum and maximum over a sequence of points alone.\<close>

fun seq_extent :: "point list \<Rightarrow> (jsnum \<times> jsnum \<times> jsnum \<times> jsnum) option" where
  "seq_extent [] = None"
| "seq_extent (p # ps) = Some (box_hull (px p, px p, py p, py p) ps)"

definition screen_box :: "jsnum \<times> jsnum \<times> jsnum \<times> jsnum" where
  "screen_box = (Fin (- 300), Fin 300, Fin (- 300), Fin 300)"

definition origin_box :: "jsnum \<times> jsnum \<times> jsnum \<times> jsnum" where
  "origin_box = (Fin 0, Fin 0, Fin 0, Fin 0)"

text \<open>The Euclidean length of the segment between two points.\<close>

fun js_sqrt :: "jsnum \<Rightarrow> jsnum" where
  "js_sqrt (Fin a) = (if a < 0 then NaN else Fin (sqrt a))"
| "js_sqrt PInf = PInf"
| "js_sqrt _ = NaN"

definition seg_length :: "point \<Rightarrow> point \<Rightarrow> jsnum" where
  "seg_length p q =
     js_sqrt (js_add (js_mul (js_sub (px q) (px p)) (js_sub (px q) (px p)))
                     (js_mul (js_sub (py q) (py p)) (js_sub (py q) (py p))))"

text \<open>A walker all of whose numbers, and both curve parameters, are finite.\<close>

fun is_fin :: "jsnum \<Rightarrow> bool" where
  "is_fin (Fin a) = True"
| "is_fin _ = False"

definition finite_walker :: "state \<Rightarrow> bool" where
  "finite_walker s \<longleftrightarrow>
     is_fin (pointX s) \<and> is_fin (pointY s) \<and> is_fin (direction s) \<and> is_fin (angleAddend s) \<and>
     is_fin (stepSize s) \<and> is_fin (angleStepSize s)"




text \<open>The number of \<^verbatim>\<open>stroke()\<close> calls in a list of context calls: one per completed draw.\<close>

definition strokes :: "ctx_call list \<Rightarrow> nat" where
  "strokes cs = length (filter (\<lambda>c. c = Stroke) cs)"

section \<open>Basic facts about the operations\<close>

lemma js_add_zero_left [simp]: "js_add (Fin 0) a = a"
  by (cases a) simp_all

lemma js_mul_one_left [simp]: "js_mul (Fin 1) a = a"
  by (cases a) (simp_all add: inf_of_def)

lemma update_walker [simp]:
  "pointX (update s) = js_add (pointX s)
     (js_mul (js_cos (js_div (js_mul (direction s) Math_PI) (Fin 180))) (stepSize s))"
  "pointY (update s) = js_add (pointY s)
     (js_mul (js_sin (js_div (js_mul (direction s) Math_PI) (Fin 180))) (stepSize s))"
  "direction (update s) = js_add (direction s) (angleAddend s)"
  "angleAddend (update s) = js_add (angleAddend s) (angleStepSize s)"
  by (simp_all add: update_def Let_def)

lemma update_points:
  "points (update s) = points s @ [\<lparr>px = pointX (update s), py = pointY (update s)\<rparr>]"
  by (simp add: update_def Let_def)

lemma update_extent:
  "minX (update s) = js_min (minX s) (pointX (update s))"
  "maxX (update s) = js_max (maxX s) (pointX (update s))"
  "minY (update s) = js_min (minY s) (pointY (update s))"
  "maxY (update s) = js_max (maxY s) (pointY (update s))"
  by (simp_all add: update_def Let_def)

lemma update_others [simp]:
  "ctx (update s) = ctx s"
  "drawsPerFrame (update s) = drawsPerFrame s"
  "frameRate (update s) = frameRate s"
  "stepSize (update s) = stepSize s"
  "angleStepSize (update s) = angleStepSize s"
  "running (update s) = running s"
  "stepAmount (update s) = stepAmount s"
  "resetAfterChange (update s) = resetAfterChange s"
  "timer (update s) = timer s"
  by (simp_all add: update_def Let_def)

lemma getWindowData_ctx [simp]: "getWindowData (s\<lparr>ctx := c\<rparr>) = getWindowData s"
  by (simp add: getWindowData_def)

lemma strokes_simps [simp]:
  "strokes [] = 0"
  "strokes (c # cs) = (if c = Stroke then Suc (strokes cs) else strokes cs)"
  "strokes (cs @ ds) = strokes cs + strokes ds"
  by (simp_all add: strokes_def)

lemma strokes_lineTo_calls [simp]: "strokes (lineTo_calls win ps) = 0"
  by (induction ps) (simp_all add: lineTo_calls_def Let_def)

lemma draw_nonempty:
  "points s \<noteq> [] \<Longrightarrow>
   draw s = Inr (s\<lparr>ctx := ctx s @
     [SetFillStyle ''black'', FillRect (Fin 0) (Fin 0) screenWidth screenHeight,
      Save, Translate (js_div screenWidth (Fin 2)) (js_div screenHeight (Fin 2)),
      SetStrokeStyle ''white'', BeginPath,
      MoveTo (px (transformPoint (px (hd (points s))) (py (hd (points s))) (getWindowData s)))
             (py (transformPoint (px (hd (points s))) (py (hd (points s))) (getWindowData s)))] @
     lineTo_calls (getWindowData s) (points s) @ [Stroke, Restore]\<rparr>)"
  by (cases "points s") (simp_all add: draw_def clear_def Let_def)

lemma draw_empty:
  "points s = [] \<Longrightarrow>
   draw s = Inl (TypeError, s\<lparr>ctx := ctx s @
     [SetFillStyle ''black'', FillRect (Fin 0) (Fin 0) screenWidth screenHeight,
      Save, Translate (js_div screenWidth (Fin 2)) (js_div screenHeight (Fin 2)),
      SetStrokeStyle ''white'', BeginPath]\<rparr>)"
  by (simp add: draw_def clear_def Let_def)

lemma draw_changes_ctx_only: "\<exists>cs. outcome (draw s) = s\<lparr>ctx := ctx s @ cs\<rparr>"
proof (cases "points s = []")
  case True
  show ?thesis by (subst draw_empty [OF True], subst outcome.simps, rule exI, rule refl)
next
  case False
  show ?thesis by (subst draw_nonempty [OF False], subst outcome.simps, rule exI, rule refl)
qed

lemma draw_keeps_walker:
  "pointX (outcome (draw s)) = pointX s"
  "pointY (outcome (draw s)) = pointY s"
  "direction (outcome (draw s)) = direction s"
  "angleAddend (outcome (draw s)) = angleAddend s"
  "stepSize (outcome (draw s)) = stepSize s"
  "angleStepSize (outcome (draw s)) = angleStepSize s"
  "points (outcome (draw s)) = points s"
proof -
  obtain cs where "outcome (draw s) = s\<lparr>ctx := ctx s @ cs\<rparr>"
    using draw_changes_ctx_only by blast
  then show "pointX (outcome (draw s)) = pointX s" "pointY (outcome (draw s)) = pointY s"
    "direction (outcome (draw s)) = direction s" "angleAddend (outcome (draw s)) = angleAddend s"
    "stepSize (outcome (draw s)) = stepSize s" "angleStepSize (outcome (draw s)) = angleStepSize s"
    "points (outcome (draw s)) = points s"
    by simp_all
qed

lemma draw_keeps_curve:
  "points (outcome (draw s)) = points s"
  "extent (outcome (draw s)) = extent s"
  "running (outcome (draw s)) = running s"
proof -
  obtain cs where "outcome (draw s) = s\<lparr>ctx := ctx s @ cs\<rparr>"
    using draw_changes_ctx_only by blast
  then show "points (outcome (draw s)) = points s" "extent (outcome (draw s)) = extent s"
    "running (outcome (draw s)) = running s"
    by (simp_all add: extent_def)
qed

lemma reset_is_draw_update:
  "reset s = draw (update (s\<lparr>ctx := ctx s @
       [SetFillStyle ''black'', FillRect (Fin 0) (Fin 0) screenWidth screenHeight],
     pointX := Fin 0, pointY := Fin 0, direction := Fin 0, angleAddend := Fin 0,
     minX := Fin 0, maxX := Fin 0, minY := Fin 0, maxY := Fin 0, points := []\<rparr>))"
  by (simp add: reset_def clear_def Let_def)

section \<open>Reset\<close>

text \<open>
  C1 (as amended). \<^verbatim>\<open>reset()\<close> never throws, and it does not leave the walker in the
  state of a freshly loaded script: it ends with one \<^verbatim>\<open>update()\<close> from the origin. After
  it the heading is 0, the heading increment is \<open>angleStepSize\<close>, the position is
  (\<open>stepSize\<close>, 0 * \<open>stepSize\<close>), which is (\<open>stepSize\<close>, 0) for a finite step size, and
  the point list holds exactly that one point.
\<close>

theorem C1_reset_takes_one_step:
  "\<exists>s'. reset s = Inr s' \<and> direction s' = Fin 0 \<and> angleAddend s' = angleStepSize s \<and>
        pointX s' = stepSize s \<and> pointY s' = js_mul (Fin 0) (stepSize s) \<and>
        points s' = [\<lparr>px = stepSize s, py = js_mul (Fin 0) (stepSize s)\<rparr>]"
proof -
  let ?s0 = "s\<lparr>ctx := ctx s @
       [SetFillStyle ''black'', FillRect (Fin 0) (Fin 0) screenWidth screenHeight],
     pointX := Fin 0, pointY := Fin 0, direction := Fin 0, angleAddend := Fin 0,
     minX := Fin 0, maxX := Fin 0, minY := Fin 0, maxY := Fin 0, points := []\<rparr>"
  let ?s1 = "update ?s0"
  have ne: "points ?s1 \<noteq> []" by (simp add: update_points)
  from draw_nonempty [OF ne] obtain cs where d: "draw ?s1 = Inr (?s1\<lparr>ctx := ctx ?s1 @ cs\<rparr>)"
    by (rule that)
  have r: "reset s = Inr (?s1\<lparr>ctx := ctx ?s1 @ cs\<rparr>)"
    using d by (simp only: reset_is_draw_update)
  show ?thesis
    unfolding r by (simp add: update_points Math_PI_def)
qed

text \<open>
  C1 (as stated) fails on the loaded script: the loaded state is a fresh generator, and
  the state after \<^verbatim>\<open>reset()\<close> is not.
\<close>

theorem C1_counterexample:
  "fresh_generator init \<and> \<not> isl (reset init) \<and> \<not> fresh_generator (projr (reset init))"
  by (simp add: reset_def draw_def update_def clear_def Let_def Math_PI_def init_def fresh_generator_def)

section \<open>The parameter inputs\<close>

lemma js_ne_NaN [simp]: "js_ne a NaN"
  by (cases a) simp_all

text \<open>
  C3 (the code departs from it). The guard \<^verbatim>\<open>value != NaN\<close> of each number input is
  true for every value, NaN included, so each handler stores whatever the parser
  returned: a text that parses to NaN replaces the parameter by NaN instead of being
  ignored.
\<close>

theorem C3_setters_store_any_parse_result:
  "stepAmount (stepsHandler parseInt v s) = parseInt v \<and>
   frameRate (framerateHandler parseInt v s) = parseInt v \<and>
   drawsPerFrame (drawsPerFrameHandler parseInt v s) = parseInt v \<and>
   stepSize (stepSizeHandler parseFloat v s) = parseFloat v \<and>
   angleStepSize (directionStepSizeHandler parseFloat v s) = parseFloat v"
  by (simp add: stepsHandler_def framerateHandler_def drawsPerFrameHandler_def
      stepSizeHandler_def directionStepSizeHandler_def)

text \<open>
  C2 (the code departs from it). No number input calls \<^verbatim>\<open>tryClear\<close>: each handler
  changes its own parameter and nothing else, whatever \<^verbatim>\<open>resetAfterChange\<close> holds, so
  the points, the walker, the extent and the canvas are left as they were. On the loaded
  page, with the flag set to \<^verbatim>\<open>"on"\<close> and two steps taken, a new step size leaves
  both points in place, where \<^verbatim>\<open>tryClear\<close> would have left the one point of a reset.
\<close>

theorem C2_setters_never_reset:
  "stepsHandler parseInt v s = s\<lparr>stepAmount := parseInt v\<rparr> \<and>
   framerateHandler parseInt v s = s\<lparr>frameRate := parseInt v\<rparr> \<and>
   drawsPerFrameHandler parseInt v s = s\<lparr>drawsPerFrame := parseInt v\<rparr> \<and>
   stepSizeHandler parseFloat v s = s\<lparr>stepSize := parseFloat v\<rparr> \<and>
   directionStepSizeHandler parseFloat v s = s\<lparr>angleStepSize := parseFloat v\<rparr> \<and>
   truthy (resetAfterChange (update (update (resetOnChangeHandler ''on'' init)))) \<and>
   length (points (stepSizeHandler parseFloat ''5''
     (update (update (resetOnChangeHandler ''on'' init))))) = 2 \<and>
   length (points (outcome (tryClear (update (update (resetOnChangeHandler ''on'' init)))))) = 1"
proof -
  let ?s = "update (update (resetOnChangeHandler ''on'' init))"
  have f: "truthy (resetAfterChange ?s)" by (simp add: resetOnChangeHandler_def)
  have 2: "length (points (stepSizeHandler parseFloat ''5'' ?s)) = 2"
    by (simp add: stepSizeHandler_def update_points resetOnChangeHandler_def init_def)
  have "tryClear ?s = reset ?s" using f by (simp only: tryClear_def if_True)
  then have 1: "length (points (outcome (tryClear ?s))) = 1"
    by (simp only: reset_is_draw_update draw_keeps_walker) (simp add: update_points)
  show ?thesis
    using f 1 2
    by (simp add: stepsHandler_def framerateHandler_def drawsPerFrameHandler_def
      stepSizeHandler_def directionStepSizeHandler_def del: outcome.simps)
qed

section \<open>Reset and the redraw\<close>

text \<open>
  C7 (as amended). \<^verbatim>\<open>reset()\<close> returns normally from every state and leaves
  \<^verbatim>\<open>running\<close> as it was. It clears the canvas, takes one step from the origin, and
  redraws once: the calls it adds to the context are one \<^verbatim>\<open>clear()\<close> followed by one
  \<^verbatim>\<open>draw()\<close> of the single point, with exactly one \<^verbatim>\<open>stroke()\<close>.
\<close>

theorem C7_reset_keeps_running_and_draws_one_point:
  "\<exists>s' p. reset s = Inr s' \<and> running s' = running s \<and>
     points s' = [\<lparr>px = stepSize s, py = js_mul (Fin 0) (stepSize s)\<rparr>] \<and>
     direction s' = Fin 0 \<and> angleAddend s' = angleStepSize s \<and>
     extent s' = widen origin_box \<lparr>px = stepSize s, py = js_mul (Fin 0) (stepSize s)\<rparr> \<and>
     p = transformPoint (stepSize s) (js_mul (Fin 0) (stepSize s)) (getWindowData s') \<and>
     ctx s' = ctx s @
       [SetFillStyle ''black'', FillRect (Fin 0) (Fin 0) screenWidth screenHeight,
        SetFillStyle ''black'', FillRect (Fin 0) (Fin 0) screenWidth screenHeight,
        Save, Translate (js_div screenWidth (Fin 2)) (js_div screenHeight (Fin 2)),
        SetStrokeStyle ''white'', BeginPath,
        MoveTo (px p) (py p), LineTo (px p) (py p), Stroke, Restore] \<and>
     strokes (drop (length (ctx s)) (ctx s')) = 1"
proof -
  let ?s0 = "s\<lparr>ctx := ctx s @
       [SetFillStyle ''black'', FillRect (Fin 0) (Fin 0) screenWidth screenHeight],
     pointX := Fin 0, pointY := Fin 0, direction := Fin 0, angleAddend := Fin 0,
     minX := Fin 0, maxX := Fin 0, minY := Fin 0, maxY := Fin 0, points := []\<rparr>"
  let ?s1 = "update ?s0"
  have ne: "points ?s1 \<noteq> []" by (simp add: update_points)
  have r: "reset s = draw ?s1" by (rule reset_is_draw_update)
  show ?thesis
    unfolding r draw_nonempty [OF ne]
    by (simp add: update_points update_extent extent_def origin_box_def Math_PI_def
        lineTo_calls_def Let_def)
qed

text \<open>
  C7 (as stated) fails after Start has been pressed on the loaded page: \<^verbatim>\<open>reset()\<close>
  leaves the controller running, and the scene it draws is not empty.
\<close>

theorem C7_counterexample:
  "\<not> isl (reset (startHandler init)) \<and> running (projr (reset (startHandler init))) \<and>
   points (projr (reset (startHandler init))) \<noteq> []"
  by (simp add: reset_def draw_def update_def clear_def Let_def Math_PI_def init_def startHandler_def)

text \<open>
  C10. \<^verbatim>\<open>draw()\<close> throws exactly when the point list is empty. \<^verbatim>\<open>reset()\<close> empties
  the list, then calls \<^verbatim>\<open>update()\<close>, which appends one point, and only then
  \<^verbatim>\<open>draw()\<close>; so \<^verbatim>\<open>reset()\<close> never throws.
\<close>

theorem C10_draw_needs_a_point:
  "(isl (draw s) \<longleftrightarrow> points s = []) \<and>
   ((\<exists>s'. draw s = Inl (TypeError, s')) \<longleftrightarrow> points s = []) \<and>
   (\<exists>s0. points s0 = [] \<and> reset s = draw (update s0) \<and>
         length (points (update s0)) = 1 \<and> \<not> isl (reset s))"
proof -
  have a: "isl (draw s) \<longleftrightarrow> points s = []"
  proof (cases "points s = []")
    case True
    then show ?thesis by (simp add: draw_empty)
  next
    case False
    then show ?thesis by (simp add: draw_nonempty)
  qed
  let ?s0 = "s\<lparr>ctx := ctx s @
       [SetFillStyle ''black'', FillRect (Fin 0) (Fin 0) screenWidth screenHeight],
     pointX := Fin 0, pointY := Fin 0, direction := Fin 0, angleAddend := Fin 0,
     minX := Fin 0, maxX := Fin 0, minY := Fin 0, maxY := Fin 0, points := []\<rparr>"
  have ne: "points (update ?s0) \<noteq> []" by (simp add: update_points)
  have "points ?s0 = [] \<and> reset s = draw (update ?s0) \<and>
         length (points (update ?s0)) = 1 \<and> \<not> isl (reset s)"
    unfolding reset_is_draw_update draw_nonempty [OF ne] by (simp add: update_points)
  then have b: "\<exists>s0. points s0 = [] \<and> reset s = draw (update s0) \<and>
         length (points (update s0)) = 1 \<and> \<not> isl (reset s)" by (rule exI)
  have c: "(\<exists>s'. draw s = Inl (TypeError, s')) \<longleftrightarrow> points s = []"
  proof (cases "points s = []")
    case True
    then show ?thesis by (simp add: draw_empty)
  next
    case False
    then show ?thesis by (simp add: draw_nonempty)
  qed
  from a c b show ?thesis by blast
qed

text \<open>
  The loaded state has no point and \<^verbatim>\<open>draw()\<close> throws there; after one step it does
  not; \<^verbatim>\<open>reset()\<close> does not.
\<close>

theorem C10_witness:
  "isl (draw init) \<and> \<not> isl (draw (update init)) \<and> \<not> isl (reset init)"
proof -
  have e: "points init = []" by (simp add: init_def)
  have n: "points (update init) \<noteq> []" by (simp add: update_points)
  from C10_draw_needs_a_point [of init] e have 1: "isl (draw init)" and 3: "\<not> isl (reset init)"
    by blast+
  from C10_draw_needs_a_point [of "update init"] n have 2: "\<not> isl (draw (update init))"
    by blast
  from 1 2 3 show ?thesis by blast
qed

section \<open>The extent\<close>

lemma repeat_update_funpow:
  assumes "repeat_update i s = Some s'"
  shows "\<exists>n. s' = (update ^^ n) s"
proof (rule repeat_update.raw_induct [where P = "\<lambda>i s s'. \<exists>n. s' = (update ^^ n) s", OF _ assms])
  fix rep :: "jsnum \<Rightarrow> state \<Rightarrow> state option" and j t t'
  assume IH: "\<And>k u u'. rep k u = Some u' \<Longrightarrow> \<exists>n. u' = (update ^^ n) u"
    and eq: "(if num_truthy j then rep (js_sub j (Fin 1)) (update t) else Some t) = Some t'"
  show "\<exists>n. t' = (update ^^ n) t"
  proof (cases "num_truthy j")
    case True
    with eq have "rep (js_sub j (Fin 1)) (update t) = Some t'" by simp
    then obtain n where "t' = (update ^^ n) (update t)" using IH by blast
    then have "t' = (update ^^ Suc n) t" by (simp add: funpow_swap1)
    then show ?thesis by blast
  next
    case False
    with eq have "t' = (update ^^ 0) t" by simp
    then show ?thesis by blast
  qed
qed

lemma repeat_update_nat:
  "repeat_update (Fin (real n)) s = Some ((update ^^ n) s)"
proof (induction n arbitrary: s)
  case 0
  show ?case by (subst repeat_update.simps) simp
next
  case (Suc n)
  have "repeat_update (Fin (real (Suc n))) s = repeat_update (Fin (real n)) (update s)"
    by (subst repeat_update.simps) (simp add: js_sub_def)
  then show ?case by (simp add: Suc funpow_swap1)
qed

lemma extent_update:
  "extent (update s) = widen (extent s) \<lparr>px = pointX (update s), py = pointY (update s)\<rparr>"
  by (simp add: extent_def update_extent)

lemma box_hull_snoc: "box_hull b (ps @ [p]) = widen (box_hull b ps) p"
  by (simp add: box_hull_def)

lemma update_keeps_hull:
  "extent s = box_hull b (points s) \<Longrightarrow> extent (update s) = box_hull b (points (update s))"
  by (simp add: extent_update update_points box_hull_snoc)

lemma funpow_update_keeps_hull:
  "extent s = box_hull b (points s) \<Longrightarrow>
   extent ((update ^^ n) s) = box_hull b (points ((update ^^ n) s))"
  by (induction n) (simp_all add: update_keeps_hull)

lemma repeat_update_keeps_hull:
  "repeat_update i s = Some s' \<Longrightarrow> extent s = box_hull b (points s) \<Longrightarrow>
   extent s' = box_hull b (points s')"
  using repeat_update_funpow funpow_update_keeps_hull by blast

lemma extent_field_updates [simp]:
  "extent (s\<lparr>ctx := c\<rparr>) = extent s"
  "extent (s\<lparr>timer := t\<rparr>) = extent s"
  "extent (s\<lparr>running := r\<rparr>) = extent s"
  "extent (s\<lparr>stepAmount := a\<rparr>) = extent s"
  "extent (s\<lparr>frameRate := a\<rparr>) = extent s"
  "extent (s\<lparr>drawsPerFrame := a\<rparr>) = extent s"
  "extent (s\<lparr>stepSize := a\<rparr>) = extent s"
  "extent (s\<lparr>angleStepSize := a\<rparr>) = extent s"
  "extent (s\<lparr>resetAfterChange := f\<rparr>) = extent s"
  by (simp_all add: extent_def)

lemma reset_extent:
  "extent (outcome (reset s)) =
     widen origin_box \<lparr>px = stepSize s, py = js_mul (Fin 0) (stepSize s)\<rparr>"
  "points (outcome (reset s)) = [\<lparr>px = stepSize s, py = js_mul (Fin 0) (stepSize s)\<rparr>]"
  by (simp_all only: reset_is_draw_update draw_keeps_curve)
     (simp_all add: update_extent update_points extent_def origin_box_def Math_PI_def)

lemma reset_returns: "reset s = Inr (outcome (reset s))"
proof -
  let ?s0 = "s\<lparr>ctx := ctx s @
       [SetFillStyle ''black'', FillRect (Fin 0) (Fin 0) screenWidth screenHeight],
     pointX := Fin 0, pointY := Fin 0, direction := Fin 0, angleAddend := Fin 0,
     minX := Fin 0, maxX := Fin 0, minY := Fin 0, maxY := Fin 0, points := []\<rparr>"
  have ne: "points (update ?s0) \<noteq> []" by (simp add: update_points)
  show ?thesis
    by (simp only: reset_is_draw_update draw_nonempty [OF ne] outcome.simps)
qed

lemma reset_hull: "extent (outcome (reset s)) = box_hull origin_box (points (outcome (reset s)))"
  by (simp add: reset_extent box_hull_def)

lemma stepHandler_keeps_hull:
  assumes "stepHandler s = Some r" and "extent s = box_hull b (points s)"
  shows "extent (outcome r) = box_hull b (points (outcome r))"
proof -
  from assms(1) obtain s1 where 1: "repeat_update (stepAmount s) s = Some s1" and r: "r = draw s1"
    by (auto simp: stepHandler_def split: option.splits)
  from repeat_update_keeps_hull [OF 1 assms(2)] show ?thesis
    by (simp add: r draw_keeps_curve)
qed

lemma drawHandler_keeps_hull:
  assumes "drawHandler s = Some r" and "extent s = box_hull b (points s)"
  shows "extent (outcome r) = box_hull b (points (outcome r))"
proof (cases "running s")
  case False
  with assms show ?thesis by (auto simp: drawHandler_def)
next
  case True
  with assms(1) obtain s1 where 1: "repeat_update (drawsPerFrame s) s = Some s1"
    and r: "(case draw s1 of Inl err \<Rightarrow> Some (Inl err)
             | Inr s2 \<Rightarrow> Some (Inr (s2\<lparr>timer := Some (js_div (Fin 1000) (frameRate s2))\<rparr>))) = Some r"
    by (auto simp: drawHandler_def split: option.splits)
  have h: "extent s1 = box_hull b (points s1)" by (rule repeat_update_keeps_hull [OF 1 assms(2)])
  have d: "points (outcome (draw s1)) = points s1" "extent (outcome (draw s1)) = extent s1"
    by (rule draw_keeps_curve)+
  show ?thesis
  proof (cases "draw s1")
    case (Inl err)
    with r d h show ?thesis by auto
  next
    case (Inr s2)
    with r d h show ?thesis by auto
  qed
qed

lemma fire_keeps_hull:
  assumes "fire parseInt parseFloat e s = Some s'" and "extent s = box_hull b (points s)"
  shows "extent s' = box_hull (if e = ClickReset then origin_box else b) (points s')"
proof (cases e)
  case ClickStep
  with assms show ?thesis by (auto dest: stepHandler_keeps_hull)
next
  case ClickReset
  with assms show ?thesis by (auto simp: resetHandler_def reset_hull)
next
  case TimerFires
  with assms show ?thesis
    by (auto split: option.splits dest!: drawHandler_keeps_hull [where b = b])
qed (use assms in \<open>auto simp: startHandler_def stopHandler_def clear_def stepsHandler_def
      framerateHandler_def drawsPerFrameHandler_def stepSizeHandler_def
      directionStepSizeHandler_def resetOnChangeHandler_def\<close>)

lemma run_keeps_hull:
  "run parseInt parseFloat evs s = Some s' \<Longrightarrow> extent s = box_hull b (points s) \<Longrightarrow>
   extent s' = box_hull (if ClickReset \<in> set evs then origin_box else b) (points s')"
proof (induction evs arbitrary: s b)
  case Nil
  then show ?case by simp
next
  case (Cons e es)
  from Cons.prems(1) obtain s1 where f: "fire parseInt parseFloat e s = Some s1"
    and r: "run parseInt parseFloat es s1 = Some s'"
    by (auto split: option.splits)
  from fire_keeps_hull [OF f Cons.prems(2)]
  have 1: "extent s1 = box_hull (if e = ClickReset then origin_box else b) (points s1)" .
  from Cons.IH [OF r 1] show ?case by (auto split: if_splits)
qed

lemma init_hull: "extent init = box_hull screen_box (points init)"
  by (simp add: extent_def init_def box_hull_def screen_box_def screenWidth_def screenHeight_def)

lemma js_min_shrinks: "js_min (Fin a) p = Fin a' \<Longrightarrow> a' \<le> a"
  by (cases p) auto

lemma js_max_grows: "js_max (Fin a) p = Fin a' \<Longrightarrow> a \<le> a'"
  by (cases p) auto

text \<open>
  C4 (as amended). The extent is the componentwise \<^verbatim>\<open>Math.min\<close>/\<^verbatim>\<open>Math.max\<close> over a
  starting box and all the points: in every state reached from the loaded page by any
  events, the starting box is the screen box (-300, 300, -300, 300) as long as Reset
  has not been pressed, and the origin afterwards. One \<^verbatim>\<open>update()\<close> widens the extent
  by the point it appends, so no side of the box moves inwards. After \<^verbatim>\<open>reset()\<close> the
  extent is the origin widened by the first point (\<open>stepSize\<close>, 0 * \<open>stepSize\<close>).
\<close>

theorem C4_extent_is_hull_of_seed_and_points:
  "(run parseInt parseFloat evs init = Some s \<longrightarrow>
      extent s = box_hull (if ClickReset \<in> set evs then origin_box else screen_box) (points s)) \<and>
   extent (update t) = widen (extent t) (last (points (update t))) \<and>
   (minX t = Fin a \<and> minX (update t) = Fin a' \<longrightarrow> a' \<le> a) \<and>
   (maxX t = Fin b \<and> maxX (update t) = Fin b' \<longrightarrow> b \<le> b') \<and>
   (minY t = Fin c \<and> minY (update t) = Fin c' \<longrightarrow> c' \<le> c) \<and>
   (maxY t = Fin d \<and> maxY (update t) = Fin d' \<longrightarrow> d \<le> d') \<and>
   (\<exists>u'. reset u = Inr u' \<and>
      extent u' = widen origin_box \<lparr>px = stepSize u, py = js_mul (Fin 0) (stepSize u)\<rparr>)"
proof (intro conjI impI)
  assume "run parseInt parseFloat evs init = Some s"
  then show "extent s = box_hull (if ClickReset \<in> set evs then origin_box else screen_box) (points s)"
    using init_hull by (rule run_keeps_hull)
next
  show "extent (update t) = widen (extent t) (last (points (update t)))"
    by (simp add: extent_update update_points)
next
  assume "minX t = Fin a \<and> minX (update t) = Fin a'"
  then show "a' \<le> a" by (auto simp: update_extent dest: js_min_shrinks)
next
  assume "maxX t = Fin b \<and> maxX (update t) = Fin b'"
  then show "b \<le> b'" by (auto simp: update_extent dest: js_max_grows)
next
  assume "minY t = Fin c \<and> minY (update t) = Fin c'"
  then show "c' \<le> c" by (auto simp: update_extent dest: js_min_shrinks)
next
  assume "maxY t = Fin d \<and> maxY (update t) = Fin d'"
  then show "d \<le> d'" by (auto simp: update_extent dest: js_max_grows)
next
  have "reset u = Inr (outcome (reset u))" by (rule reset_returns)
  then show "\<exists>u'. reset u = Inr u' \<and>
      extent u' = widen origin_box \<lparr>px = stepSize u, py = js_mul (Fin 0) (stepSize u)\<rparr>"
    using reset_extent(1) [of u] by metis
qed


text \<open>
  Step and then Reset on the loaded page: the loop of the Step handler returns, and after
  the reset the extent is the origin widened by the one point. One step from the loaded
  state moves no side of the screen box inwards.
\<close>

theorem C4_witness:
  "run (\<lambda>v. NaN) (\<lambda>v. NaN) [ClickStep, ClickReset] init =
     Some (outcome (reset (outcome (draw (update init))))) \<and>
   extent (outcome (reset (outcome (draw (update init))))) =
     box_hull origin_box (points (outcome (reset (outcome (draw (update init)))))) \<and>
   minX init = Fin (- 300) \<and> minX (update init) = Fin (- 300) \<and>
   maxX init = Fin 300 \<and> maxX (update init) = Fin 300 \<and>
   minY init = Fin (- 300) \<and> minY (update init) = Fin (- 300) \<and>
   maxY init = Fin 300 \<and> maxY (update init) = Fin 300 \<and>
   extent (outcome (reset (outcome (draw (update init))))) = (Fin 0, Fin 20, Fin 0, Fin 0)"
proof -
  let ?s = "outcome (reset (outcome (draw (update init))))"
  have l: "repeat_update (Fin 1) init = Some (update init)"
    using repeat_update_nat [of 1 init] by simp
  have a: "stepAmount init = Fin 1" by (simp add: init_def)
  have r: "run (\<lambda>v. NaN) (\<lambda>v. NaN) [ClickStep, ClickReset] init = Some ?s"
    by (simp add: stepHandler_def resetHandler_def a l del: outcome.simps)
  have i: "minX init = Fin (- 300)" "maxX init = Fin 300" "minY init = Fin (- 300)"
    "maxY init = Fin 300" "stepSize init = Fin 20"
    "pointX init = Fin 0" "pointY init = Fin 0" "direction init = Fin 0"
    by (simp_all add: init_def screenWidth_def screenHeight_def)
  have u: "minX (update init) = Fin (- 300)" "maxX (update init) = Fin 300"
    "minY (update init) = Fin (- 300)" "maxY (update init) = Fin 300"
    by (simp_all add: update_extent i Math_PI_def)
  have "stepSize (outcome (draw (update init))) = Fin 20"
    by (simp add: draw_keeps_walker i)
  then have x: "extent ?s = (Fin 0, Fin 20, Fin 0, Fin 0)"
    by (simp add: reset_extent origin_box_def)
  from C4_extent_is_hull_of_seed_and_points
    [where parseInt = "\<lambda>v. NaN" and parseFloat = "\<lambda>v. NaN" and evs = "[ClickStep, ClickReset]"
       and s = ?s and t = init and u = init
       and a = "- 300" and a' = "- 300" and b = 300 and b' = 300
       and c = "- 300" and c' = "- 300" and d = 300 and d' = 300] r
  have "extent ?s = box_hull origin_box (points ?s)"
    by simp
  with r i u x show ?thesis by simp
qed

text \<open>
  C4 (as stated) fails. One step after loading, the only point is (20, 0) while the
  extent is still the screen box; and after \<^verbatim>\<open>reset()\<close> the extent is (0, 20, 0, 0),
  neither the degenerate box at the origin nor the minimum and maximum over the one
  point (20, 0).
\<close>

theorem C4_counterexample:
  "seq_extent (points (update init)) \<noteq> Some (extent (update init)) \<and>
   extent (update init) = (Fin (- 300), Fin 300, Fin (- 300), Fin 300) \<and>
   seq_extent (points (update init)) = Some (Fin 20, Fin 20, Fin 0, Fin 0) \<and>
   extent (outcome (reset init)) \<noteq> origin_box \<and>
   seq_extent (points (outcome (reset init))) \<noteq> Some (extent (outcome (reset init))) \<and>
   extent (outcome (reset init)) = (Fin 0, Fin 20, Fin 0, Fin 0) \<and>
   seq_extent (points (outcome (reset init))) = Some (Fin 20, Fin 20, Fin 0, Fin 0)"
proof -
  have i: "minX init = Fin (- 300)" "maxX init = Fin 300" "minY init = Fin (- 300)"
    "maxY init = Fin 300" "stepSize init = Fin 20" "points init = []"
    "pointX init = Fin 0" "pointY init = Fin 0" "direction init = Fin 0"
    by (simp_all add: init_def screenWidth_def screenHeight_def)
  have 1: "extent (update init) = (Fin (- 300), Fin 300, Fin (- 300), Fin 300)"
    by (simp add: extent_def update_extent i Math_PI_def)
  have 2: "seq_extent (points (update init)) = Some (Fin 20, Fin 20, Fin 0, Fin 0)"
    by (simp add: update_points i box_hull_def Math_PI_def)
  have 3: "extent (outcome (reset init)) = (Fin 0, Fin 20, Fin 0, Fin 0)"
    by (simp add: reset_extent i origin_box_def)
  have 4: "seq_extent (points (outcome (reset init))) = Some (Fin 20, Fin 20, Fin 0, Fin 0)"
    by (simp add: reset_extent i box_hull_def)
  show ?thesis unfolding 1 2 3 4 by (simp add: origin_box_def)
qed

section \<open>Sequences of steps\<close>

lemma funpow_update_params [simp]:
  "stepSize ((update ^^ n) s) = stepSize s"
  "angleStepSize ((update ^^ n) s) = angleStepSize s"
  by (induction n) simp_all

lemma points_funpow_update:
  "points ((update ^^ n) s) = points s @
     map (\<lambda>j. \<lparr>px = pointX ((update ^^ Suc j) s), py = pointY ((update ^^ Suc j) s)\<rparr>) [0..<n]"
proof (induction n)
  case 0
  show ?case by simp
next
  case (Suc n)
  have "points ((update ^^ Suc n) s) = points ((update ^^ n) s) @
      [\<lparr>px = pointX ((update ^^ Suc n) s), py = pointY ((update ^^ Suc n) s)\<rparr>]"
    by (simp add: update_points del: update_walker)
  then show ?case by (simp add: Suc del: update_walker funpow.simps)
qed

lemma heading_closed_form:
  assumes "direction s = Fin h" and "angleAddend s = Fin a" and "angleStepSize s = Fin d"
  shows "angleAddend ((update ^^ k) s) = Fin (a + d * real k) \<and>
         direction ((update ^^ k) s) = Fin (h + a * real k + d * real k * (real k - 1) / 2)"
proof (induction k)
  case 0
  show ?case by (simp add: assms)
next
  case (Suc k)
  then show ?case by (simp add: assms field_simps)
qed

lemma finite_walker_update: "finite_walker s \<Longrightarrow> finite_walker (update s)"
  by (cases "pointX s"; cases "pointY s"; cases "direction s"; cases "angleAddend s";
      cases "stepSize s"; cases "angleStepSize s")
     (simp_all add: finite_walker_def Math_PI_def)

lemma finite_walker_funpow: "finite_walker s \<Longrightarrow> finite_walker ((update ^^ n) s)"
  by (induction n) (simp_all add: finite_walker_update)

lemma segment_of_update:
  assumes "finite_walker s" and "stepSize s = Fin L"
  shows "seg_length \<lparr>px = pointX s, py = pointY s\<rparr>
           \<lparr>px = pointX (update s), py = pointY (update s)\<rparr> = Fin \<bar>L\<bar>"
proof -
  from assms(1) obtain x y h where f: "pointX s = Fin x" "pointY s = Fin y" "direction s = Fin h"
    by (cases "pointX s"; cases "pointY s"; cases "direction s") (simp_all add: finite_walker_def)
  let ?t = "h * pi / 180"
  have "(cos ?t * L) * (cos ?t * L) + (sin ?t * L) * (sin ?t * L)
      = (L * L) * (cos ?t * cos ?t + sin ?t * sin ?t)"
    by (simp add: algebra_simps del: sin_cos_squared_add3)
  also have "\<dots> = L * L" by simp
  finally have e: "(cos ?t * L) * (cos ?t * L) + (sin ?t * L) * (sin ?t * L) = L * L" .
  have n: "\<not> L * L < 0" by (simp add: not_less)
  show ?thesis
    by (simp add: seg_length_def js_sub_def f assms(2) Math_PI_def e n)
qed

section \<open>Rounding\<close>

lemma floor_log2:
  assumes "0 < x" and "2 powi e \<le> x" and "x < 2 powi (e + 1)"
  shows "\<lfloor>log 2 x\<rfloor> = e"
proof (rule floor_unique)
  have p: "(2::real) powr of_int e = 2 powi e"
    by (simp add: powr_real_of_int')
  have p': "(2::real) powr of_int (e + 1) = 2 powi (e + 1)"
    by (rule powr_real_of_int') simp_all
  show "of_int e \<le> log 2 x"
    using assms(1,2) p by (simp add: le_log_iff)
  have "log 2 x < of_int (e + 1)"
    using assms(1,3) p' by (simp only: log_less_iff)
  then show "log 2 x < of_int e + 1" by simp
qed

lemma round_half_even_int [simp]: "round_half_even (of_int z) = z"
  by (simp add: round_half_even_def)

lemma fl64_zero [simp]: "fl64 0 = Fin 0"
  by (simp add: fl64_def)

lemma fl64_eval:
  assumes "x \<noteq> 0" and "2 powi e \<le> \<bar>x\<bar>" and "\<bar>x\<bar> < 2 powi (e + 1)" and "- 1022 \<le> e"
    and "round_half_even (x / 2 powi (e - 52)) = n"
    and "\<bar>of_int n * 2 powi (e - 52)\<bar> < (2::real) ^ 1024"
  shows "fl64 x = Fin (of_int n * 2 powi (e - 52))"
proof -
  have e: "\<lfloor>log 2 \<bar>x\<bar>\<rfloor> = e" using assms(1-3) by (intro floor_log2) simp_all
  have m: "max e (- 1022) = e" using assms(4) by simp
  from assms(6) have "\<not> 2 ^ 1024 \<le> of_int n * (2::real) powi (e - 52)"
    and "\<not> of_int n * (2::real) powi (e - 52) \<le> - (2 ^ 1024)"
    by (simp_all only: abs_less_iff not_le) linarith+
  then show ?thesis
    using assms(1) by (simp only: fl64_def e m Let_def assms(5) if_False)
qed

lemma fl64_overflow:
  assumes "x \<noteq> 0" and "2 powi e \<le> \<bar>x\<bar>" and "\<bar>x\<bar> < 2 powi (e + 1)" and "- 1022 \<le> e"
    and "round_half_even (x / 2 powi (e - 52)) = n"
    and "(2::real) ^ 1024 \<le> of_int n * 2 powi (e - 52)"
  shows "fl64 x = PInf"
proof -
  have e: "\<lfloor>log 2 \<bar>x\<bar>\<rfloor> = e" using assms(1-3) by (intro floor_log2) simp_all
  have m: "max e (- 1022) = e" using assms(4) by simp
  show ?thesis
    using assms(1,6) by (simp only: fl64_def e m Let_def assms(5) if_False if_True)
qed

text \<open>Integers up to \<open>2 ^ 53\<close> in magnitude are binary64 numbers.\<close>

lemma fl64_int:
  assumes "\<bar>i\<bar> \<le> 2 ^ 53"
  shows "fl64 (of_int i) = Fin (of_int i)"
proof (cases "i = 0")
  case True
  then show ?thesis by simp
next
  case False
  define e where "e = \<lfloor>log 2 \<bar>real_of_int i\<bar>\<rfloor>"
  have pos: "0 < \<bar>real_of_int i\<bar>" using False by simp
  have one: "1 \<le> \<bar>real_of_int i\<bar>" using False by (simp add: abs_if)
  have le53: "\<bar>real_of_int i\<bar> \<le> 2 ^ 53"
    using assms by (metis of_int_abs of_int_le_iff of_int_numeral of_int_power)
  have lo: "2 powi e \<le> \<bar>real_of_int i\<bar>"
  proof -
    have "of_int e \<le> log 2 \<bar>real_of_int i\<bar>" unfolding e_def by simp
    then have "2 powr of_int e \<le> \<bar>real_of_int i\<bar>" using pos by (simp add: le_log_iff)
    then show ?thesis by (simp add: powr_real_of_int')
  qed
  have hi: "\<bar>real_of_int i\<bar> < 2 powi (e + 1)"
  proof -
    have "log 2 \<bar>real_of_int i\<bar> < of_int (e + 1)" unfolding e_def by simp
    then have "\<bar>real_of_int i\<bar> < 2 powr of_int (e + 1)" using pos by (simp only: log_less_iff)
    moreover have "(2::real) powr of_int (e + 1) = 2 powi (e + 1)"
      by (rule powr_real_of_int') simp_all
    ultimately show ?thesis by simp
  qed
  have e0: "0 \<le> e" unfolding e_def using one by simp
  have e53: "e \<le> 53"
  proof (rule ccontr)
    assume "\<not> e \<le> 53"
    then have "54 \<le> e" by simp
    then have "(2::real) powi 54 \<le> 2 powi e" by (intro power_int_increasing) simp_all
    with lo have "(2::real) ^ 54 \<le> \<bar>real_of_int i\<bar>" by simp
    with le53 show False by simp
  qed
  have bound: "\<bar>real_of_int i\<bar> < 2 ^ 1024"
  proof -
    have "(2::real) ^ 53 < 2 ^ 1024" by simp
    with le53 show ?thesis by (rule le_less_trans)
  qed
  obtain z :: int where z: "real_of_int i / 2 powi (e - 52) = of_int z"
  proof (cases "e \<le> 52")
    case True
    then have "(2::real) powi (e - 52) = inverse (2 ^ nat (52 - e))"
      by (metis diff_ge_0_iff_ge int_nat_eq minus_diff_eq power_int_minus power_int_of_nat)
    then have "real_of_int i / 2 powi (e - 52) = of_int (i * 2 ^ nat (52 - e))"
      by (simp add: field_simps)
    then show ?thesis by (rule that)
  next
    case False
    with e53 have e: "e = 53" by simp
    from lo have "(2::real) ^ 53 \<le> \<bar>real_of_int i\<bar>" by (simp add: e)
    then have "2 ^ 53 \<le> \<bar>i\<bar>" by (metis of_int_abs of_int_le_iff of_int_numeral of_int_power)
    with assms have "\<bar>i\<bar> = 2 ^ 53" by simp
    then have "i = 2 ^ 53 \<or> i = - (2 ^ 53)" by linarith
    then have "i = 2 * (i div 2)" by auto
    then have "real_of_int i = 2 * of_int (i div 2)" by (metis of_int_mult of_int_numeral)
    then have "real_of_int i / 2 powi (e - 52) = of_int (i div 2)" by (simp add: e)
    then show ?thesis by (rule that)
  qed
  have r: "round_half_even (real_of_int i / 2 powi (e - 52)) = z" by (simp add: z)
  have y: "of_int z * (2::real) powi (e - 52) = of_int i"
    using z by (simp add: field_simps)
  have "fl64 (of_int i) = Fin (of_int z * 2 powi (e - 52))"
    using False lo hi e0 r bound by (intro fl64_eval) (simp_all add: y)
  then show ?thesis by (simp add: y)
qed

text \<open>The double for 0.1, twice it, and the rounded sum of the two.\<close>

lemma fl64_one_tenth:
  "fl64 (3602879701896397 / 2 ^ 55) = Fin (3602879701896397 / 2 ^ 55)"
  using fl64_eval [where x = "3602879701896397 / 2 ^ 55" and e = "- 4" and n = 7205759403792794]
  by (simp add: power_int_minus round_half_even_def)

lemma fl64_two_tenths:
  "fl64 (3602879701896397 / 2 ^ 55 + 3602879701896397 / 2 ^ 55) = Fin (3602879701896397 / 2 ^ 54)"
  using fl64_eval [where x = "3602879701896397 / 2 ^ 54" and e = "- 3" and n = 7205759403792794]
  by (simp add: power_int_minus round_half_even_def)

lemma fl64_three_tenths:
  "fl64 (3602879701896397 / 2 ^ 55 + 3602879701896397 / 2 ^ 54) = Fin (5404319552844596 / 2 ^ 54)"
  using fl64_eval [where x = "10808639105689191 / 2 ^ 55" and e = "- 2" and n = 5404319552844596]
  by (simp add: power_int_minus round_half_even_def)

lemma fl64_one: "fl64 1 = Fin 1"
  using fl64_int [of 1] by simp

text \<open>
  The error of one rounding: a real number of magnitude at most \<open>2 ^ 1023\<close> rounds to a
  finite double, off by at most the relative half unit \<open>1 / 2 ^ 53\<close> plus the absolute
  half unit \<open>1 / 2 ^ 1075\<close> of the subnormal range.
\<close>

lemma round_half_even_near: "\<bar>of_int (round_half_even r) - r\<bar> \<le> 1 / 2"
proof -
  have "of_int \<lfloor>r\<rfloor> \<le> r" "r < of_int \<lfloor>r\<rfloor> + 1" by linarith+
  then show ?thesis
    by (auto simp: round_half_even_def Let_def)
qed

lemma fl64_near:
  assumes "\<bar>x\<bar> \<le> 2 ^ 1023"
  shows "\<exists>y. fl64 x = Fin y \<and> \<bar>y - x\<bar> \<le> \<bar>x\<bar> / 2 ^ 53 + 1 / 2 ^ 1075"
proof (cases "x = 0")
  case True
  then show ?thesis by simp
next
  case False
  define e0 where "e0 = \<lfloor>log 2 \<bar>x\<bar>\<rfloor>"
  define e where "e = max e0 (- 1022)"
  define q :: real where "q = 2 powi (e - 52)"
  define y where "y = of_int (round_half_even (x / q)) * q"
  have pos: "0 < \<bar>x\<bar>" using False by simp
  have lo: "2 powi e0 \<le> \<bar>x\<bar>"
  proof -
    have "of_int e0 \<le> log 2 \<bar>x\<bar>" unfolding e0_def by simp
    then have "2 powr of_int e0 \<le> \<bar>x\<bar>" using pos by (simp add: le_log_iff)
    then show ?thesis by (simp add: powr_real_of_int')
  qed
  have hi: "\<bar>x\<bar> < 2 powi (e0 + 1)"
  proof -
    have "log 2 \<bar>x\<bar> < of_int (e0 + 1)" unfolding e0_def by simp
    then have "\<bar>x\<bar> < 2 powr of_int (e0 + 1)" using pos by (simp only: log_less_iff)
    moreover have "(2::real) powr of_int (e0 + 1) = 2 powi (e0 + 1)"
      by (rule powr_real_of_int') simp_all
    ultimately show ?thesis by simp
  qed
  have e0_le: "e0 \<le> 1023"
  proof (rule ccontr)
    assume "\<not> e0 \<le> 1023"
    then have "1024 \<le> e0" by simp
    then have "(2::real) powi 1024 \<le> 2 powi e0" by (intro power_int_increasing) simp_all
    with lo have "(2::real) ^ 1024 \<le> \<bar>x\<bar>" by simp
    with assms show False by simp
  qed
  have qpos: "0 < q" unfolding q_def by simp
  have half: "\<bar>y - x\<bar> \<le> q / 2"
  proof -
    have "y - x = (of_int (round_half_even (x / q)) - x / q) * q"
      using qpos by (simp add: y_def field_simps)
    then have "\<bar>y - x\<bar> = \<bar>of_int (round_half_even (x / q)) - x / q\<bar> * q"
      using qpos by (simp add: abs_mult)
    also have "\<dots> \<le> 1 / 2 * q"
      using qpos round_half_even_near by (intro mult_right_mono) simp_all
    finally show ?thesis by simp
  qed
  have q_small: "q / 2 \<le> \<bar>x\<bar> / 2 ^ 53 + 1 / 2 ^ 1075"
  proof (cases "- 1022 \<le> e0")
    case True
    then have "e = e0" by (simp add: e_def)
    then have "q / 2 = 2 powi e0 / 2 ^ 53"
      by (simp add: q_def power_int_diff)
    also have "\<dots> \<le> \<bar>x\<bar> / 2 ^ 53" using lo by (simp add: divide_right_mono)
    finally show ?thesis by simp
  next
    case False
    then have "e = - 1022" by (simp add: e_def)
    then have "q / 2 = 1 / 2 ^ 1075" by (simp add: q_def power_int_minus field_simps)
    then show ?thesis by simp
  qed
  have q_big: "q / 2 \<le> 2 ^ 970"
  proof -
    have "e \<le> 1023" using e0_le by (simp add: e_def)
    then have "q \<le> 2 powi (1023 - 52)" unfolding q_def by (intro power_int_increasing) simp_all
    then show ?thesis by simp
  qed
  have fin: "\<bar>y\<bar> < 2 ^ 1024"
  proof -
    have "\<bar>y\<bar> \<le> \<bar>x\<bar> + q / 2" using half by linarith
    also have "\<dots> \<le> 2 ^ 1023 + 2 ^ 970" using assms q_big by linarith
    also have "\<dots> < (2::real) ^ 1024" by simp
    finally show ?thesis .
  qed
  then have "\<not> 2 ^ 1024 \<le> y" "\<not> y \<le> - (2 ^ 1024)" by linarith+
  then have "fl64 x = Fin y"
    using False by (simp only: fl64_def e0_def [symmetric] e_def [symmetric] Let_def
        q_def [symmetric] y_def [symmetric] if_False)
  moreover have "\<bar>y - x\<bar> \<le> \<bar>x\<bar> / 2 ^ 53 + 1 / 2 ^ 1075" using half q_small by linarith
  ultimately show ?thesis by blast
qed

lemma fl64_bounded:
  assumes "\<bar>x\<bar> \<le> B" and "B \<le> 2 ^ 1023"
  shows "\<exists>y. fl64 x = Fin y \<and> \<bar>y - x\<bar> \<le> B / 2 ^ 53 + 1 / 2 ^ 1075"
proof -
  from assms have "\<bar>x\<bar> \<le> 2 ^ 1023" by linarith
  from fl64_near [OF this] obtain y where y: "fl64 x = Fin y"
    "\<bar>y - x\<bar> \<le> \<bar>x\<bar> / 2 ^ 53 + 1 / 2 ^ 1075" by blast
  have "\<bar>x\<bar> / 2 ^ 53 \<le> B / 2 ^ 53" using assms(1) by (simp add: divide_right_mono)
  with y show ?thesis by (intro exI [of _ y]) linarith
qed

section \<open>The heading in binary64 arithmetic\<close>

lemma update64_heading [simp]:
  "direction (update64 s) = js_add64 (direction s) (angleAddend s)"
  "angleAddend (update64 s) = js_add64 (angleAddend s) (angleStepSize s)"
  "angleStepSize (update64 s) = angleStepSize s"
  "stepSize (update64 s) = stepSize s"
  by (simp_all add: update64_def Let_def)

lemma update64_position:
  "pointX (update64 s) = js_add64 (pointX s)
     (js_mul64 (js_cos64 (js_div64 (js_mul64 (direction s) Math_PI64) (Fin 180))) (stepSize s))"
  "pointY (update64 s) = js_add64 (pointY s)
     (js_mul64 (js_sin64 (js_div64 (js_mul64 (direction s) Math_PI64) (Fin 180))) (stepSize s))"
  by (simp_all add: update64_def Let_def)

lemma update64_points:
  "points (update64 s) = points s @ [\<lparr>px = pointX (update64 s), py = pointY (update64 s)\<rparr>]"
  by (simp add: update64_def Let_def)

lemma funpow_update64_params [simp]:
  "stepSize ((update64 ^^ n) s) = stepSize s"
  "angleStepSize ((update64 ^^ n) s) = angleStepSize s"
  by (induction n) simp_all

lemma points_funpow_update64:
  "points ((update64 ^^ n) s) = points s @
     map (\<lambda>j. \<lparr>px = pointX ((update64 ^^ Suc j) s), py = pointY ((update64 ^^ Suc j) s)\<rparr>)
       [0..<n]"
proof (induction n)
  case 0
  show ?case by simp
next
  case (Suc n)
  have "points ((update64 ^^ Suc n) s) = points ((update64 ^^ n) s) @
      [\<lparr>px = pointX ((update64 ^^ Suc n) s), py = pointY ((update64 ^^ Suc n) s)\<rparr>]"
    by (simp add: update64_points)
  then show ?case by (simp add: Suc del: funpow.simps)
qed

lemma js_add64_ints:
  "\<bar>a + b\<bar> \<le> 2 ^ 53 \<Longrightarrow> js_add64 (Fin (of_int a)) (Fin (of_int b)) = Fin (of_int (a + b))"
  using fl64_int [of "a + b"] by simp

lemma triangle_step: "Suc j * (Suc j - 1) div 2 = j * (j - 1) div 2 + j"
proof -
  have "Suc j * (Suc j - 1) = j * (j - 1) + 2 * j"
    by (cases j) (simp_all add: algebra_simps)
  then show ?thesis by simp
qed

lemma heading64_closed_form:
  assumes "direction s = Fin 0" and "angleAddend s = Fin 0"
    and "angleStepSize s = Fin (of_int m)" and "\<bar>m\<bar> * int (k * k) \<le> 2 ^ 53"
  shows "j \<le> k \<Longrightarrow>
         angleAddend ((update64 ^^ j) s) = Fin (of_int (m * int j)) \<and>
         direction ((update64 ^^ j) s) = Fin (of_int (m * int (j * (j - 1) div 2)))"
proof (induction j)
  case 0
  show ?case by (simp add: assms)
next
  case (Suc j)
  then have IH: "angleAddend ((update64 ^^ j) s) = Fin (of_int (m * int j))"
    "direction ((update64 ^^ j) s) = Fin (of_int (m * int (j * (j - 1) div 2)))"
    and jk: "Suc j \<le> k"
    by simp_all
  have small: "\<bar>m * int x\<bar> \<le> 2 ^ 53" if "x \<le> k * k" for x
  proof -
    have "\<bar>m * int x\<bar> = \<bar>m\<bar> * int x" by (simp add: abs_mult)
    also have "\<dots> \<le> \<bar>m\<bar> * int (k * k)"
      using that by (intro mult_left_mono) (simp_all del: of_nat_mult)
    finally show ?thesis using assms(4) by simp
  qed
  have k1: "1 \<le> k" using jk by simp
  have 1: "Suc j \<le> k * k"
  proof -
    have "Suc j * 1 \<le> k * k" using jk k1 by (intro mult_mono) simp_all
    then show ?thesis by simp
  qed
  have 2: "Suc j * (Suc j - 1) div 2 \<le> k * k"
  proof -
    have "Suc j * (Suc j - 1) div 2 \<le> Suc j * (Suc j - 1)" by simp
    also have "\<dots> \<le> k * k" using jk by (intro mult_mono) simp_all
    finally show ?thesis .
  qed
  have a: "angleAddend ((update64 ^^ Suc j) s) = Fin (of_int (m * int (Suc j)))"
  proof -
    have "m * int j + m = m * int (Suc j)" by (simp add: algebra_simps)
    moreover have "\<bar>m * int j + m\<bar> \<le> 2 ^ 53" using small [OF 1] by (simp add: algebra_simps)
    ultimately show ?thesis
      using js_add64_ints [of "m * int j" m] by (simp add: IH assms(3))
  qed
  have d: "direction ((update64 ^^ Suc j) s) = Fin (of_int (m * int (Suc j * (Suc j - 1) div 2)))"
  proof -
    have e: "m * int (j * (j - 1) div 2) + m * int j = m * int (Suc j * (Suc j - 1) div 2)"
      by (simp only: triangle_step) (simp add: algebra_simps)
    moreover have "\<bar>m * int (j * (j - 1) div 2) + m * int j\<bar> \<le> 2 ^ 53"
      unfolding e by (rule small [OF 2])
    ultimately show ?thesis
      using js_add64_ints [of "m * int (j * (j - 1) div 2)" "m * int j"] by (simp add: IH)
  qed
  from a d show ?case by simp
qed

lemma real_triangle: "real (k * (k - 1) div 2) = real k * (real k - 1) / 2"
proof (cases k)
  case 0
  then show ?thesis by simp
next
  case (Suc j)
  have "even (k * (k - 1))" using Suc by simp
  then have "real (k * (k - 1) div 2) = real (k * (k - 1)) / 2"
    by (simp add: real_of_nat_div)
  then show ?thesis using Suc by (simp add: algebra_simps)
qed

text \<open>The walker after \<^verbatim>\<open>reset()\<close>, and the point list after \<open>n\<close> further rounded steps.\<close>

lemma reset_walker:
  "pointX (outcome (reset s)) = stepSize s"
  "pointY (outcome (reset s)) = js_mul (Fin 0) (stepSize s)"
  "direction (outcome (reset s)) = Fin 0"
  "angleAddend (outcome (reset s)) = angleStepSize s"
  "stepSize (outcome (reset s)) = stepSize s"
  "angleStepSize (outcome (reset s)) = angleStepSize s"
  "points (outcome (reset s)) = [\<lparr>px = stepSize s, py = js_mul (Fin 0) (stepSize s)\<rparr>]"
  by (simp_all only: reset_is_draw_update draw_keeps_walker)
     (simp_all add: update_points Math_PI_def)

lemma points_after_reset64:
  "points ((update64 ^^ n) (outcome (reset s))) =
     map (\<lambda>j. \<lparr>px = pointX ((update64 ^^ j) (outcome (reset s))),
                py = pointY ((update64 ^^ j) (outcome (reset s)))\<rparr>) [0..<Suc n]"
proof -
  let ?t = "outcome (reset s)"
  let ?f = "\<lambda>j. \<lparr>px = pointX ((update64 ^^ j) ?t), py = pointY ((update64 ^^ j) ?t)\<rparr>"
  have "points ((update64 ^^ n) ?t) = [?f 0] @ map (\<lambda>j. ?f (Suc j)) [0..<n]"
    by (simp add: points_funpow_update64 reset_walker del: funpow.simps)
  also have "map (\<lambda>j. ?f (Suc j)) [0..<n] = map ?f (map Suc [0..<n])"
    by (simp only: map_map comp_def)
  also have "[?f 0] @ map ?f (map Suc [0..<n]) = map ?f (0 # map Suc [0..<n])"
    by simp
  also have "0 # map Suc [0..<n] = [0..<Suc n]"
    by (simp only: upt_conv_Cons [OF zero_less_Suc] map_Suc_upt)
  finally show ?thesis .
qed


lemma heading64_same:
  assumes "direction s = direction s'" and "angleAddend s = angleAddend s'"
    and "angleStepSize s = angleStepSize s'"
  shows "direction ((update64 ^^ j) s) = direction ((update64 ^^ j) s') \<and>
         angleAddend ((update64 ^^ j) s) = angleAddend ((update64 ^^ j) s')"
  by (induction j) (simp_all add: assms)

lemma heading64_after_reset:
  assumes "angleStepSize s = Fin (of_int m)" and "\<bar>m\<bar> * int (Suc j * Suc j) \<le> 2 ^ 53"
  shows "direction ((update64 ^^ j) (outcome (reset s))) =
           Fin (of_int m * real (Suc j) * (real (Suc j) - 1) / 2)"
proof -
  let ?z = "s\<lparr>direction := Fin 0, angleAddend := Fin 0\<rparr>"
  let ?t = "outcome (reset s)"
  have z: "direction ?z = Fin 0" "angleAddend ?z = Fin 0" "angleStepSize ?z = Fin (of_int m)"
    by (simp_all add: assms(1))
  have "\<bar>m\<bar> * 1 \<le> \<bar>m\<bar> * int (Suc j * Suc j)"
    by (intro mult_left_mono) simp_all
  with assms(2) have m: "\<bar>m\<bar> \<le> 2 ^ 53" by simp
  have a: "angleAddend (update64 ?z) = Fin (of_int m)"
    using fl64_int [OF m] by (simp add: assms(1))
  have d: "direction (update64 ?z) = Fin 0" by simp
  have e1: "direction ?t = direction (update64 ?z)"
    unfolding d by (simp add: reset_walker del: outcome.simps)
  have e2: "angleAddend ?t = angleAddend (update64 ?z)"
    unfolding a by (simp add: reset_walker assms(1) del: outcome.simps)
  have e3: "angleStepSize ?t = angleStepSize (update64 ?z)"
    by (simp add: reset_walker del: outcome.simps)
  have "direction ((update64 ^^ j) ?t) = direction ((update64 ^^ j) (update64 ?z))"
    by (rule heading64_same [OF e1 e2 e3, THEN conjunct1])
  also have "(update64 ^^ j) (update64 ?z) = (update64 ^^ Suc j) ?z"
    by (simp only: funpow_Suc_right comp_def)
  also have "direction ((update64 ^^ Suc j) ?z) =
      Fin (of_int (m * int (Suc j * (Suc j - 1) div 2)))"
    using heading64_closed_form [OF z assms(2), of "Suc j"] by blast
  also have "of_int (m * int (Suc j * (Suc j - 1) div 2)) =
      of_int m * real (Suc j * (Suc j - 1) div 2)"
    by simp
  also have "\<dots> = of_int m * real (Suc j) * (real (Suc j) - 1) / 2"
    by (simp only: real_triangle)
  finally show ?thesis .
qed

text \<open>
  C5 (as amended). With a delta that is an integer \<open>m\<close> with \<open>\<bar>m\<bar> * k * k\<close> at most
  \<open>2 ^ 53\<close>, the heading before the step that appends point \<open>k\<close> (counted from 0) is
  exactly \<open>m * k * (k - 1) / 2\<close> in the script's doubles, and point \<open>k\<close> is the position
  before that step moved by \<open>stepSize\<close> along that heading: every partial sum is then an
  integer that a double holds exactly. This holds from a walker with heading 0, heading
  increment 0 and an empty point list, where point \<open>k\<close> is appended by step \<open>k + 1\<close>; and
  from the state \<^verbatim>\<open>reset()\<close> returns, which has taken the step of point 0 already, so
  that point \<open>k\<close>, for \<open>k\<close> at least 1, is appended by step \<open>k\<close> after the reset. The
  script keeps the heading unreduced.
\<close>

theorem C5_heading_integer_delta:
  assumes "angleStepSize s = Fin (of_int m)" and "\<bar>m\<bar> * int (k * k) \<le> 2 ^ 53" and "k < n"
  shows "(direction s = Fin 0 \<and> angleAddend s = Fin 0 \<and> points s = [] \<longrightarrow>
          direction ((update64 ^^ k) s) = Fin (of_int m * real k * (real k - 1) / 2) \<and>
          points ((update64 ^^ n) s) ! k =
            \<lparr>px = js_add64 (pointX ((update64 ^^ k) s))
                   (js_mul64 (js_cos64 (js_div64
                      (js_mul64 (Fin (of_int m * real k * (real k - 1) / 2)) Math_PI64)
                      (Fin 180))) (stepSize s)),
             py = js_add64 (pointY ((update64 ^^ k) s))
                   (js_mul64 (js_sin64 (js_div64
                      (js_mul64 (Fin (of_int m * real k * (real k - 1) / 2)) Math_PI64)
                      (Fin 180))) (stepSize s))\<rparr>) \<and>
         (1 \<le> k \<longrightarrow>
          direction ((update64 ^^ (k - 1)) (outcome (reset s))) =
            Fin (of_int m * real k * (real k - 1) / 2) \<and>
          points ((update64 ^^ n) (outcome (reset s))) ! k =
            \<lparr>px = js_add64 (pointX ((update64 ^^ (k - 1)) (outcome (reset s))))
                   (js_mul64 (js_cos64 (js_div64
                      (js_mul64 (Fin (of_int m * real k * (real k - 1) / 2)) Math_PI64)
                      (Fin 180))) (stepSize s)),
             py = js_add64 (pointY ((update64 ^^ (k - 1)) (outcome (reset s))))
                   (js_mul64 (js_sin64 (js_div64
                      (js_mul64 (Fin (of_int m * real k * (real k - 1) / 2)) Math_PI64)
                      (Fin 180))) (stepSize s))\<rparr>)"
proof (intro conjI impI)
  assume f: "direction s = Fin 0 \<and> angleAddend s = Fin 0 \<and> points s = []"
  then have f1: "direction s = Fin 0" and f2: "angleAddend s = Fin 0" and f3: "points s = []"
    by simp_all
  from heading64_closed_form [OF f1 f2 assms(1,2), of k]
  have "direction ((update64 ^^ k) s) = Fin (of_int (m * int (k * (k - 1) div 2)))" by simp
  also have "of_int (m * int (k * (k - 1) div 2)) = of_int m * real (k * (k - 1) div 2)"
    by simp
  also have "\<dots> = of_int m * real k * (real k - 1) / 2"
    by (simp only: real_triangle)
  finally show h: "direction ((update64 ^^ k) s) = Fin (of_int m * real k * (real k - 1) / 2)" .
  have "points ((update64 ^^ n) s) ! k =
      \<lparr>px = pointX ((update64 ^^ Suc k) s), py = pointY ((update64 ^^ Suc k) s)\<rparr>"
    using f3 assms(3) by (simp add: points_funpow_update64 del: funpow.simps)
  then show "points ((update64 ^^ n) s) ! k =
            \<lparr>px = js_add64 (pointX ((update64 ^^ k) s))
                   (js_mul64 (js_cos64 (js_div64
                      (js_mul64 (Fin (of_int m * real k * (real k - 1) / 2)) Math_PI64)
                      (Fin 180))) (stepSize s)),
             py = js_add64 (pointY ((update64 ^^ k) s))
                   (js_mul64 (js_sin64 (js_div64
                      (js_mul64 (Fin (of_int m * real k * (real k - 1) / 2)) Math_PI64)
                      (Fin 180))) (stepSize s))\<rparr>"
    using h by (simp add: update64_position)
next
  let ?t = "outcome (reset s)"
  assume "1 \<le> k"
  then obtain j where j: "k = Suc j" by (cases k) auto
  from heading64_after_reset [OF assms(1), of j] assms(2)
  have "direction ((update64 ^^ j) ?t) = Fin (of_int m * real (Suc j) * (real (Suc j) - 1) / 2)"
    unfolding j by blast
  then show h: "direction ((update64 ^^ (k - 1)) ?t) = Fin (of_int m * real k * (real k - 1) / 2)"
    unfolding j by simp
  have "points ((update64 ^^ n) ?t) ! k =
      \<lparr>px = pointX ((update64 ^^ k) ?t), py = pointY ((update64 ^^ k) ?t)\<rparr>"
    unfolding points_after_reset64 using assms(3) by (simp only: nth_map_upt) simp
  also have "(update64 ^^ k) ?t = update64 ((update64 ^^ (k - 1)) ?t)"
    unfolding j by simp
  finally show "points ((update64 ^^ n) ?t) ! k =
            \<lparr>px = js_add64 (pointX ((update64 ^^ (k - 1)) ?t))
                   (js_mul64 (js_cos64 (js_div64
                      (js_mul64 (Fin (of_int m * real k * (real k - 1) / 2)) Math_PI64)
                      (Fin 180))) (stepSize s)),
             py = js_add64 (pointY ((update64 ^^ (k - 1)) ?t))
                   (js_mul64 (js_sin64 (js_div64
                      (js_mul64 (Fin (of_int m * real k * (real k - 1) / 2)) Math_PI64)
                      (Fin 180))) (stepSize s))\<rparr>"
    using h by (simp add: update64_position reset_walker del: outcome.simps)
qed

text \<open>
  On the loaded page the delta is 10, and the heading before the step of point 3 is 30,
  from the loaded page as well as after a reset.
\<close>

theorem C5_witness:
  "angleStepSize init = Fin (of_int 10) \<and> \<bar>10\<bar> * int (3 * 3) \<le> 2 ^ 53 \<and> (3::nat) < 4 \<and>
   direction init = Fin 0 \<and> angleAddend init = Fin 0 \<and> points init = [] \<and> (1::nat) \<le> 3 \<and>
   direction ((update64 ^^ 3) init) = Fin 30 \<and>
   direction ((update64 ^^ 2) (outcome (reset init))) = Fin 30"
proof -
  have i: "angleStepSize init = Fin (of_int 10)" "\<bar>10\<bar> * int (3 * 3) \<le> 2 ^ 53" "(3::nat) < 4"
    by (simp_all add: init_def)
  have f: "direction init = Fin 0 \<and> angleAddend init = Fin 0 \<and> points init = []"
    by (simp add: init_def)
  have l: "(1::nat) \<le> 3" by simp
  from C5_heading_integer_delta [OF i] f l
  have "direction ((update64 ^^ 3) init) = Fin (of_int 10 * real 3 * (real 3 - 1) / 2)"
    and "direction ((update64 ^^ (3 - 1)) (outcome (reset init))) =
      Fin (of_int 10 * real 3 * (real 3 - 1) / 2)"
    by blast+
  then have "direction ((update64 ^^ 3) init) = Fin 30"
    and "direction ((update64 ^^ 2) (outcome (reset init))) = Fin 30"
    by simp_all
  with i f l show ?thesis by blast
qed

lemma heading_after_three_steps:
  assumes "fl64 d = Fin d" and "fl64 (d + d) = Fin d2" and "fl64 (d + d2) = Fin d3"
  shows "direction (update64 (update64 (update64
           (directionStepSizeHandler (\<lambda>v. Fin d) w init)))) = Fin d3"
proof -
  let ?s = "directionStepSizeHandler (\<lambda>v. Fin d) w init"
  have i: "direction ?s = Fin 0" "angleAddend ?s = Fin 0" "angleStepSize ?s = Fin d"
    by (simp_all add: directionStepSizeHandler_def init_def)
  have a1: "angleAddend (update64 ?s) = Fin d"
    by (simp add: i assms(1))
  have d1: "direction (update64 ?s) = Fin 0"
    by (simp add: i)
  have a2: "angleAddend (update64 (update64 ?s)) = Fin d2"
    unfolding update64_heading(2) [of "update64 ?s"] a1 update64_heading(3) i(3)
      js_add64.simps(1) by (rule assms(2))
  have d2: "direction (update64 (update64 ?s)) = Fin d"
    unfolding update64_heading(1) [of "update64 ?s"] a1 d1 js_add64.simps(1)
    using assms(1) by simp
  show ?thesis
    unfolding update64_heading(1) [of "update64 (update64 ?s)"] a2 d2 js_add64.simps(1)
    by (rule assms(3))
qed

text \<open>
  C5 (as stated) fails for a delta that is not such an integer. The text 0.1 is stored
  as the double 3602879701896397 / 2^55; with it the heading before the step of point 3
  is the double 5404319552844596 / 2^54 (printed 0.30000000000000004), and that is not
  the delta times 3 * 2 / 2.
\<close>

theorem C5_counterexample:
  "direction (update64 (update64 (update64
     (directionStepSizeHandler (\<lambda>v. Fin (3602879701896397 / 2 ^ 55)) ''0.1'' init)))) =
     Fin (5404319552844596 / 2 ^ 54) \<and>
   Fin (5404319552844596 / 2 ^ 54) \<noteq> Fin (3602879701896397 / 2 ^ 55 * 3 * (3 - 1) / 2)"
proof (rule conjI)
  show "direction (update64 (update64 (update64
     (directionStepSizeHandler (\<lambda>v. Fin (3602879701896397 / 2 ^ 55)) ''0.1'' init)))) =
     Fin (5404319552844596 / 2 ^ 54)"
    by (rule heading_after_three_steps [OF fl64_one_tenth fl64_two_tenths fl64_three_tenths])
  show "Fin (5404319552844596 / 2 ^ 54) \<noteq> Fin (3602879701896397 / 2 ^ 55 * 3 * (3 - 1) / 2)"
    by simp
qed

section \<open>The number of points and the length of a segment\<close>

text \<open>
  One step in binary64 arithmetic, with the rounding errors bounded. The product
  \<open>c * L\<close> and the sum \<open>x + c * L\<close> are each rounded once, and \<open>c\<close> is itself a rounded
  cosine or sine, so a coordinate moves by \<open>cos t * L\<close> or \<open>sin t * L\<close> up to an error
  proportional to the size of the coordinate and of the step.
\<close>

lemma tiny_vs_step:
  fixes L :: real
  assumes "1 / 10 ^ 100 \<le> \<bar>L\<bar>"
  shows "1 / 2 ^ 1075 \<le> \<bar>L\<bar> / 2 ^ 53"
proof -
  have "(1::real) / 2 ^ 1075 \<le> (1 / 10 ^ 100) / 2 ^ 53" by simp
  also have "\<dots> \<le> \<bar>L\<bar> / 2 ^ 53" using assms by (simp add: divide_right_mono)
  finally show ?thesis .
qed

lemma axis_step64_nonzero:
  assumes c: "\<bar>c - r\<bar> \<le> 1 / 2 ^ 53 + 1 / 2 ^ 1075" and r: "\<bar>r\<bar> \<le> 1"
    and x: "\<bar>x\<bar> \<le> X" and XL: "X \<le> 10 ^ 7 * \<bar>L\<bar>"
    and L1: "1 / 10 ^ 100 \<le> \<bar>L\<bar>" and L2: "\<bar>L\<bar> \<le> 10 ^ 100"
  shows "\<exists>x1. js_add64 (Fin x) (js_mul64 (Fin c) (Fin L)) = Fin x1 \<and>
           \<bar>x1 - x - r * L\<bar> \<le> (X + 10 * \<bar>L\<bar>) / 2 ^ 53 \<and> \<bar>x1\<bar> \<le> X + 2 * \<bar>L\<bar>"
proof -
  have eta: "1 / 2 ^ 1075 \<le> \<bar>L\<bar> / 2 ^ 53" by (rule tiny_vs_step [OF L1])
  have c2: "\<bar>c\<bar> \<le> 2"
  proof -
    have "(1::real) / 2 ^ 53 + 1 / 2 ^ 1075 \<le> 1" by simp
    with c r show ?thesis by linarith
  qed
  have cL: "\<bar>c * L\<bar> \<le> 2 * \<bar>L\<bar>"
    using c2 by (simp add: abs_mult mult_right_mono)
  have rL: "\<bar>r * L\<bar> \<le> \<bar>L\<bar>"
    using r by (simp add: abs_mult mult_left_le_one_le)
  have "2 * \<bar>L\<bar> \<le> 2 ^ 1023"
  proof -
    have "2 * (10::real) ^ 100 \<le> 2 ^ 1023" by simp
    with L2 show ?thesis by linarith
  qed
  from fl64_bounded [OF cL this] obtain tx where tx: "fl64 (c * L) = Fin tx"
    and d2: "\<bar>tx - c * L\<bar> \<le> 2 * \<bar>L\<bar> / 2 ^ 53 + 1 / 2 ^ 1075" by blast
  have u1: "2 * \<bar>L\<bar> / 2 ^ 53 \<le> \<bar>L\<bar> / 2" by simp
  have e1: "\<bar>L\<bar> / 2 ^ 53 \<le> \<bar>L\<bar> / 2" by simp
  have tx3: "\<bar>tx\<bar> \<le> 3 * \<bar>L\<bar>"
    using d2 cL eta u1 e1 by linarith
  have sum: "\<bar>x + tx\<bar> \<le> X + 3 * \<bar>L\<bar>" using x tx3 by linarith
  have "X + 3 * \<bar>L\<bar> \<le> 2 ^ 1023"
  proof -
    have "10 ^ 7 * (10::real) ^ 100 + 3 * 10 ^ 100 \<le> 2 ^ 1023" by simp
    moreover have "10 ^ 7 * \<bar>L\<bar> \<le> 10 ^ 7 * 10 ^ 100" using L2 by simp
    ultimately show ?thesis using XL L2 by linarith
  qed
  from fl64_bounded [OF sum this] obtain x1 where x1: "fl64 (x + tx) = Fin x1"
    and d1: "\<bar>x1 - (x + tx)\<bar> \<le> (X + 3 * \<bar>L\<bar>) / 2 ^ 53 + 1 / 2 ^ 1075" by blast
  define p where "p = (c - r) * L"
  have p: "\<bar>p\<bar> \<le> (1 / 2 ^ 53 + 1 / 2 ^ 1075) * \<bar>L\<bar>"
    unfolding p_def using c by (simp only: abs_mult) (rule mult_right_mono, simp_all)
  have p': "(1 / 2 ^ 53 + 1 / 2 ^ 1075) * \<bar>L\<bar> \<le> 2 * \<bar>L\<bar> / 2 ^ 53"
  proof -
    have "(1::real) / 2 ^ 53 + 1 / 2 ^ 1075 \<le> 2 / 2 ^ 53" by simp
    then have "(1 / 2 ^ 53 + 1 / 2 ^ 1075) * \<bar>L\<bar> \<le> 2 / 2 ^ 53 * \<bar>L\<bar>"
      by (rule mult_right_mono) simp
    then show ?thesis by simp
  qed
  have split: "x1 - x - r * L = (x1 - (x + tx)) + (tx - c * L) + p"
    by (simp add: p_def algebra_simps)
  have "\<bar>x1 - x - r * L\<bar> \<le> \<bar>x1 - (x + tx)\<bar> + \<bar>tx - c * L\<bar> + \<bar>p\<bar>"
    unfolding split by linarith
  also have "\<dots> \<le> ((X + 3 * \<bar>L\<bar>) / 2 ^ 53 + 1 / 2 ^ 1075) + (2 * \<bar>L\<bar> / 2 ^ 53 + 1 / 2 ^ 1075)
      + 2 * \<bar>L\<bar> / 2 ^ 53"
    using d1 d2 p p' by linarith
  also have "\<dots> \<le> (X + 10 * \<bar>L\<bar>) / 2 ^ 53"
    using eta by (simp add: field_simps)
  finally have err: "\<bar>x1 - x - r * L\<bar> \<le> (X + 10 * \<bar>L\<bar>) / 2 ^ 53" .
  have "(X + 10 * \<bar>L\<bar>) / 2 ^ 53 \<le> \<bar>L\<bar>"
  proof -
    have "X + 10 * \<bar>L\<bar> \<le> (10 ^ 7 + 10) * \<bar>L\<bar>" using XL by (simp add: algebra_simps)
    then have "(X + 10 * \<bar>L\<bar>) / 2 ^ 53 \<le> (10 ^ 7 + 10) * \<bar>L\<bar> / 2 ^ 53"
      by (simp add: divide_right_mono)
    also have "\<dots> \<le> \<bar>L\<bar>" by simp
    finally show ?thesis .
  qed
  with err rL x have bound: "\<bar>x1\<bar> \<le> X + 2 * \<bar>L\<bar>" by linarith
  have "js_add64 (Fin x) (js_mul64 (Fin c) (Fin L)) = Fin x1" by (simp add: tx x1)
  with err bound show ?thesis by blast
qed

lemma norm_perturb:
  assumes "\<bar>ex\<bar> \<le> E" and "\<bar>ey\<bar> \<le> E"
  shows "\<bar>sqrt ((cos t * L + ex) * (cos t * L + ex) + (sin t * L + ey) * (sin t * L + ey)) - \<bar>L\<bar>\<bar>
           \<le> 2 * E"
proof -
  let ?a = "cos t * L" and ?b = "sin t * L"
  have base: "sqrt (?a\<^sup>2 + ?b\<^sup>2) = \<bar>L\<bar>"
  proof -
    have "?a\<^sup>2 + ?b\<^sup>2 = L\<^sup>2 * ((cos t)\<^sup>2 + (sin t)\<^sup>2)"
      by (simp add: power2_eq_square algebra_simps del: sin_cos_squared_add3)
    then show ?thesis by simp
  qed
  have e: "sqrt (ex\<^sup>2 + ey\<^sup>2) \<le> 2 * E"
    using sqrt_sum_squares_le_sum_abs [of ex ey] assms by linarith
  have e': "sqrt ((- ex)\<^sup>2 + (- ey)\<^sup>2) \<le> 2 * E" using e by simp
  have up: "sqrt ((?a + ex)\<^sup>2 + (?b + ey)\<^sup>2) \<le> \<bar>L\<bar> + 2 * E"
    using real_sqrt_sum_squares_triangle_ineq [of ?a ex ?b ey] base e by linarith
  have "sqrt (((?a + ex) + (- ex))\<^sup>2 + ((?b + ey) + (- ey))\<^sup>2)
      \<le> sqrt ((?a + ex)\<^sup>2 + (?b + ey)\<^sup>2) + sqrt ((- ex)\<^sup>2 + (- ey)\<^sup>2)"
    by (rule real_sqrt_sum_squares_triangle_ineq)
  then have down: "\<bar>L\<bar> \<le> sqrt ((?a + ex)\<^sup>2 + (?b + ey)\<^sup>2) + 2 * E"
    using base e' by simp
  have eq: "sqrt ((?a + ex) * (?a + ex) + (?b + ey) * (?b + ey)) =
      sqrt ((?a + ex)\<^sup>2 + (?b + ey)\<^sup>2)"
    by (simp only: power2_eq_square)
  show ?thesis unfolding eq using up down by linarith
qed

lemma axis_step64:
  assumes c: "\<bar>c - r\<bar> \<le> 1 / 2 ^ 53 + 1 / 2 ^ 1075" and r: "\<bar>r\<bar> \<le> 1"
    and x: "\<bar>x\<bar> \<le> X" and XL: "X \<le> 10 ^ 7 * \<bar>L\<bar>"
    and L1: "L = 0 \<or> 1 / 10 ^ 100 \<le> \<bar>L\<bar>" and L2: "\<bar>L\<bar> \<le> 10 ^ 100"
  shows "\<exists>x1. js_add64 (Fin x) (js_mul64 (Fin c) (Fin L)) = Fin x1 \<and>
           \<bar>x1 - x - r * L\<bar> \<le> (X + 10 * \<bar>L\<bar>) / 2 ^ 53 \<and> \<bar>x1\<bar> \<le> X + 2 * \<bar>L\<bar>"
proof (cases "L = 0")
  case True
  with x XL have "x = 0" "0 \<le> X" by simp_all
  with True show ?thesis by simp
next
  case False
  with L1 have "1 / 10 ^ 100 \<le> \<bar>L\<bar>" by simp
  from axis_step64_nonzero [OF c r x XL this L2] show ?thesis .
qed

lemma angle64:
  assumes "\<bar>h\<bar> \<le> 10 ^ 20"
  shows "\<exists>t c sn. js_cos64 (js_div64 (js_mul64 (Fin h) Math_PI64) (Fin 180)) = Fin c \<and>
           js_sin64 (js_div64 (js_mul64 (Fin h) Math_PI64) (Fin 180)) = Fin sn \<and>
           \<bar>c - cos t\<bar> \<le> 1 / 2 ^ 53 + 1 / 2 ^ 1075 \<and>
           \<bar>sn - sin t\<bar> \<le> 1 / 2 ^ 53 + 1 / 2 ^ 1075"
proof -
  define p :: real where "p = 884279719003555 / 2 ^ 48"
  have p: "0 \<le> p" "p \<le> 4" by (simp_all add: p_def)
  have "\<bar>h * p\<bar> = \<bar>h\<bar> * p" using p(1) by (simp add: abs_mult)
  also have "\<dots> \<le> 10 ^ 20 * 4" using assms p by (intro mult_mono) simp_all
  finally have b1: "\<bar>h * p\<bar> \<le> 10 ^ 21" by simp
  have "(10::real) ^ 21 \<le> 2 ^ 1023" by simp
  from fl64_bounded [OF b1 this] obtain m1 where m1: "fl64 (h * p) = Fin m1"
    and e1: "\<bar>m1 - h * p\<bar> \<le> 10 ^ 21 / 2 ^ 53 + 1 / 2 ^ 1075" by blast
  have "(10::real) ^ 21 / 2 ^ 53 + 1 / 2 ^ 1075 \<le> 10 ^ 21" by simp
  with e1 b1 have "\<bar>m1\<bar> \<le> 2 * 10 ^ 21" by linarith
  then have b2: "\<bar>m1 / 180\<bar> \<le> 2 * 10 ^ 21" by simp
  have "2 * (10::real) ^ 21 \<le> 2 ^ 1023" by simp
  from fl64_bounded [OF b2 this] obtain t where t: "fl64 (m1 / 180) = Fin t" by blast
  have "\<bar>cos t\<bar> \<le> 1" by (rule abs_cos_le_one)
  moreover have "(1::real) \<le> 2 ^ 1023" by simp
  ultimately obtain c where c: "fl64 (cos t) = Fin c"
    and ce: "\<bar>c - cos t\<bar> \<le> 1 / 2 ^ 53 + 1 / 2 ^ 1075"
    using fl64_bounded [of "cos t" 1] by blast
  have "\<bar>sin t\<bar> \<le> 1" by (rule abs_sin_le_one)
  moreover have "(1::real) \<le> 2 ^ 1023" by simp
  ultimately obtain sn where sn: "fl64 (sin t) = Fin sn"
    and se: "\<bar>sn - sin t\<bar> \<le> 1 / 2 ^ 53 + 1 / 2 ^ 1075"
    using fl64_bounded [of "sin t" 1] by blast
  have a: "js_div64 (js_mul64 (Fin h) Math_PI64) (Fin 180) = Fin t"
    using m1 t by (simp add: Math_PI64_def p_def)
  have "js_cos64 (js_div64 (js_mul64 (Fin h) Math_PI64) (Fin 180)) = Fin c"
    "js_sin64 (js_div64 (js_mul64 (Fin h) Math_PI64) (Fin 180)) = Fin sn"
    unfolding a by (simp_all add: c sn)
  with ce se show ?thesis by blast
qed

lemma step64_position:
  assumes X: "pointX s = Fin x" and Y: "pointY s = Fin y" and H: "direction s = Fin h"
    and SL: "stepSize s = Fin L"
    and bx: "\<bar>x\<bar> \<le> B" and "by": "\<bar>y\<bar> \<le> B" and BL: "B \<le> 10 ^ 7 * \<bar>L\<bar>"
    and bh: "\<bar>h\<bar> \<le> 10 ^ 20"
    and L1: "L = 0 \<or> 1 / 10 ^ 100 \<le> \<bar>L\<bar>" and L2: "\<bar>L\<bar> \<le> 10 ^ 100"
  shows "\<exists>x1 y1. pointX (update64 s) = Fin x1 \<and> pointY (update64 s) = Fin y1 \<and>
           \<bar>x1\<bar> \<le> B + 2 * \<bar>L\<bar> \<and> \<bar>y1\<bar> \<le> B + 2 * \<bar>L\<bar> \<and>
           \<bar>sqrt ((x1 - x) * (x1 - x) + (y1 - y) * (y1 - y)) - \<bar>L\<bar>\<bar>
             \<le> 2 * ((B + 10 * \<bar>L\<bar>) / 2 ^ 53)"
proof -
  from angle64 [OF bh] obtain t c sn
    where c: "js_cos64 (js_div64 (js_mul64 (Fin h) Math_PI64) (Fin 180)) = Fin c"
      and sn: "js_sin64 (js_div64 (js_mul64 (Fin h) Math_PI64) (Fin 180)) = Fin sn"
      and ce: "\<bar>c - cos t\<bar> \<le> 1 / 2 ^ 53 + 1 / 2 ^ 1075"
      and se: "\<bar>sn - sin t\<bar> \<le> 1 / 2 ^ 53 + 1 / 2 ^ 1075" by blast
  from axis_step64 [OF ce abs_cos_le_one bx BL L1 L2] obtain x1
    where x1: "js_add64 (Fin x) (js_mul64 (Fin c) (Fin L)) = Fin x1"
      and ex: "\<bar>x1 - x - cos t * L\<bar> \<le> (B + 10 * \<bar>L\<bar>) / 2 ^ 53"
      and bx1: "\<bar>x1\<bar> \<le> B + 2 * \<bar>L\<bar>" by blast
  from axis_step64 [OF se abs_sin_le_one "by" BL L1 L2] obtain y1
    where y1: "js_add64 (Fin y) (js_mul64 (Fin sn) (Fin L)) = Fin y1"
      and ey: "\<bar>y1 - y - sin t * L\<bar> \<le> (B + 10 * \<bar>L\<bar>) / 2 ^ 53"
      and by1: "\<bar>y1\<bar> \<le> B + 2 * \<bar>L\<bar>" by blast
  have px: "pointX (update64 s) = Fin x1"
    by (simp only: update64_position X H SL c x1)
  have py: "pointY (update64 s) = Fin y1"
    by (simp only: update64_position Y H SL sn y1)
  have dx: "x1 - x = cos t * L + (x1 - x - cos t * L)" by simp
  have dy: "y1 - y = sin t * L + (y1 - y - sin t * L)" by simp
  have "\<bar>sqrt ((cos t * L + (x1 - x - cos t * L)) * (cos t * L + (x1 - x - cos t * L)) +
               (sin t * L + (y1 - y - sin t * L)) * (sin t * L + (y1 - y - sin t * L))) - \<bar>L\<bar>\<bar>
        \<le> 2 * ((B + 10 * \<bar>L\<bar>) / 2 ^ 53)"
    by (rule norm_perturb [OF ex ey])
  then have "\<bar>sqrt ((x1 - x) * (x1 - x) + (y1 - y) * (y1 - y)) - \<bar>L\<bar>\<bar>
        \<le> 2 * ((B + 10 * \<bar>L\<bar>) / 2 ^ 53)"
    by (simp only: dx [symmetric] dy [symmetric])
  with px py bx1 by1 show ?thesis by blast
qed

lemma step64_heading:
  assumes H: "direction s = Fin h" and A: "angleAddend s = Fin a" and D: "angleStepSize s = Fin d"
    and bh: "\<bar>h\<bar> \<le> Hb" and ba: "\<bar>a\<bar> \<le> Ab" and bd: "\<bar>d\<bar> \<le> 10 ^ 6"
    and Hb: "Hb \<le> 10 ^ 20" and Ab: "Ab \<le> 10 ^ 20"
  shows "\<exists>h1 a1. direction (update64 s) = Fin h1 \<and> angleAddend (update64 s) = Fin a1 \<and>
           \<bar>h1\<bar> \<le> Hb + Ab + 10 ^ 5 \<and> \<bar>a1\<bar> \<le> Ab + 10 ^ 6 + 10 ^ 5"
proof -
  define E :: real where "E = (10 ^ 20 + 10 ^ 20) / 2 ^ 53 + 1 / 2 ^ 1075"
  have k: "(10::real) ^ 20 + 10 ^ 20 \<le> 2 ^ 1023" by simp
  have E: "E \<le> 10 ^ 5" by (simp add: E_def)
  have "\<bar>h + a\<bar> \<le> 10 ^ 20 + 10 ^ 20" using bh ba Hb Ab by linarith
  from fl64_bounded [OF this k] obtain h1 where h1: "fl64 (h + a) = Fin h1"
    and e1: "\<bar>h1 - (h + a)\<bar> \<le> E" unfolding E_def by blast
  have b1: "\<bar>h1\<bar> \<le> Hb + Ab + 10 ^ 5" using e1 E bh ba by linarith
  have "(10::real) ^ 6 \<le> 10 ^ 20" by simp
  with ba bd Ab have "\<bar>a + d\<bar> \<le> 10 ^ 20 + 10 ^ 20" by linarith
  from fl64_bounded [OF this k] obtain a1 where a1: "fl64 (a + d) = Fin a1"
    and e2: "\<bar>a1 - (a + d)\<bar> \<le> E" unfolding E_def by blast
  have b2: "\<bar>a1\<bar> \<le> Ab + 10 ^ 6 + 10 ^ 5" using e2 E ba bd by linarith
  have "direction (update64 s) = Fin h1" "angleAddend (update64 s) = Fin a1"
    by (simp_all add: H A D h1 a1)
  with b1 b2 show ?thesis by blast
qed

lemma walk64_bounds:
  assumes t: "pointX t = Fin L" "pointY t = Fin 0" "direction t = Fin 0"
      "angleAddend t = Fin d" "stepSize t = Fin L" "angleStepSize t = Fin d"
    and L1: "L = 0 \<or> 1 / 10 ^ 100 \<le> \<bar>L\<bar>" and L2: "\<bar>L\<bar> \<le> 10 ^ 100"
    and bd: "\<bar>d\<bar> \<le> 10 ^ 6"
    and j: "j \<le> 10 ^ 6"
  shows "\<exists>x y h a. pointX ((update64 ^^ j) t) = Fin x \<and> pointY ((update64 ^^ j) t) = Fin y \<and>
           direction ((update64 ^^ j) t) = Fin h \<and> angleAddend ((update64 ^^ j) t) = Fin a \<and>
           \<bar>x\<bar> \<le> (2 * real j + 1) * \<bar>L\<bar> \<and> \<bar>y\<bar> \<le> (2 * real j + 1) * \<bar>L\<bar> \<and>
           \<bar>h\<bar> \<le> 2 * 10 ^ 12 * real j \<and> \<bar>a\<bar> \<le> (10 ^ 6 + 10 ^ 5) * (real j + 1)"
  using j
proof (induction j)
  case 0
  have "\<bar>d\<bar> \<le> (10 ^ 6 + 10 ^ 5) * (real 0 + 1)" using bd by simp
  then show ?case using t by simp
next
  case (Suc j)
  let ?s = "(update64 ^^ j) t"
  from Suc.prems have "real (Suc j) \<le> real (10 ^ 6)" by (simp only: of_nat_le_iff)
  then have jr: "real j + 1 \<le> 10 ^ 6" by simp
  from Suc obtain x y h a where X: "pointX ?s = Fin x" and Y: "pointY ?s = Fin y"
    and H: "direction ?s = Fin h" and A: "angleAddend ?s = Fin a"
    and bx: "\<bar>x\<bar> \<le> (2 * real j + 1) * \<bar>L\<bar>" and "by": "\<bar>y\<bar> \<le> (2 * real j + 1) * \<bar>L\<bar>"
    and bh: "\<bar>h\<bar> \<le> 2 * 10 ^ 12 * real j" and ba: "\<bar>a\<bar> \<le> (10 ^ 6 + 10 ^ 5) * (real j + 1)"
    by auto
  have SL: "stepSize ?s = Fin L" and SD: "angleStepSize ?s = Fin d" by (simp_all add: t)
  have BL: "(2 * real j + 1) * \<bar>L\<bar> \<le> 10 ^ 7 * \<bar>L\<bar>"
    using jr by (intro mult_right_mono) simp_all
  have Hb: "2 * 10 ^ 12 * real j \<le> 10 ^ 20" using jr by simp
  have Ab: "(10 ^ 6 + 10 ^ 5) * (real j + 1) \<le> 10 ^ 20" using jr by simp
  have bh': "\<bar>h\<bar> \<le> 10 ^ 20" using bh Hb by linarith
  from step64_position [OF X Y H SL bx "by" BL bh' L1 L2] obtain x1 y1
    where X1: "pointX (update64 ?s) = Fin x1" and Y1: "pointY (update64 ?s) = Fin y1"
      and bx1: "\<bar>x1\<bar> \<le> (2 * real j + 1) * \<bar>L\<bar> + 2 * \<bar>L\<bar>"
      and by1: "\<bar>y1\<bar> \<le> (2 * real j + 1) * \<bar>L\<bar> + 2 * \<bar>L\<bar>" by blast
  from step64_heading [OF H A SD bh ba bd Hb Ab] obtain h1 a1
    where H1: "direction (update64 ?s) = Fin h1" and A1: "angleAddend (update64 ?s) = Fin a1"
      and bh1: "\<bar>h1\<bar> \<le> 2 * 10 ^ 12 * real j + (10 ^ 6 + 10 ^ 5) * (real j + 1) + 10 ^ 5"
      and ba1: "\<bar>a1\<bar> \<le> (10 ^ 6 + 10 ^ 5) * (real j + 1) + 10 ^ 6 + 10 ^ 5" by blast
  have eqB: "(2 * real j + 1) * \<bar>L\<bar> + 2 * \<bar>L\<bar> = (2 * real (Suc j) + 1) * \<bar>L\<bar>"
    by (simp add: algebra_simps)
  have h': "\<bar>h1\<bar> \<le> 2 * 10 ^ 12 * real (Suc j)" using bh1 jr by simp
  have a': "\<bar>a1\<bar> \<le> (10 ^ 6 + 10 ^ 5) * (real (Suc j) + 1)" using ba1 by simp
  have "pointX ((update64 ^^ Suc j) t) = Fin x1" "pointY ((update64 ^^ Suc j) t) = Fin y1"
    "direction ((update64 ^^ Suc j) t) = Fin h1" "angleAddend ((update64 ^^ Suc j) t) = Fin a1"
    using X1 Y1 H1 A1 by simp_all
  with bx1 by1 h' a' show ?case unfolding eqB by blast
qed

lemma segment64:
  assumes t: "pointX t = Fin L" "pointY t = Fin 0" "direction t = Fin 0"
      "angleAddend t = Fin d" "stepSize t = Fin L" "angleStepSize t = Fin d"
    and L1: "L = 0 \<or> 1 / 10 ^ 100 \<le> \<bar>L\<bar>" and L2: "\<bar>L\<bar> \<le> 10 ^ 100"
    and bd: "\<bar>d\<bar> \<le> 10 ^ 6"
    and j: "Suc j \<le> 10 ^ 6"
  shows "\<exists>m. seg_length \<lparr>px = pointX ((update64 ^^ j) t), py = pointY ((update64 ^^ j) t)\<rparr>
              \<lparr>px = pointX ((update64 ^^ Suc j) t), py = pointY ((update64 ^^ Suc j) t)\<rparr> = Fin m \<and>
            \<bar>m - \<bar>L\<bar>\<bar> \<le> \<bar>L\<bar> / 10 ^ 8"
proof -
  let ?s = "(update64 ^^ j) t"
  from j have j': "j \<le> 10 ^ 6" by simp
  from j have "real (Suc j) \<le> real (10 ^ 6)" by (simp only: of_nat_le_iff)
  then have jr: "real j + 1 \<le> 10 ^ 6" by simp
  from walk64_bounds [OF t L1 L2 bd j'] obtain x y h a
    where X: "pointX ?s = Fin x" and Y: "pointY ?s = Fin y"
    and H: "direction ?s = Fin h" and A: "angleAddend ?s = Fin a"
    and bx: "\<bar>x\<bar> \<le> (2 * real j + 1) * \<bar>L\<bar>" and "by": "\<bar>y\<bar> \<le> (2 * real j + 1) * \<bar>L\<bar>"
    and bh: "\<bar>h\<bar> \<le> 2 * 10 ^ 12 * real j" and ba: "\<bar>a\<bar> \<le> (10 ^ 6 + 10 ^ 5) * (real j + 1)"
    by blast
  have SL: "stepSize ?s = Fin L" by (simp add: t)
  have BL: "(2 * real j + 1) * \<bar>L\<bar> \<le> 10 ^ 7 * \<bar>L\<bar>"
    using jr by (intro mult_right_mono) simp_all
  have "2 * 10 ^ 12 * real j \<le> 10 ^ 20" using jr by simp
  with bh have bh': "\<bar>h\<bar> \<le> 10 ^ 20" by linarith
  from step64_position [OF X Y H SL bx "by" BL bh' L1 L2] obtain x1 y1
    where X1: "pointX (update64 ?s) = Fin x1" and Y1: "pointY (update64 ?s) = Fin y1"
      and e: "\<bar>sqrt ((x1 - x) * (x1 - x) + (y1 - y) * (y1 - y)) - \<bar>L\<bar>\<bar>
             \<le> 2 * (((2 * real j + 1) * \<bar>L\<bar> + 10 * \<bar>L\<bar>) / 2 ^ 53)" by blast
  have m: "(2 * real j + 1) * \<bar>L\<bar> \<le> 2000000 * \<bar>L\<bar>"
    using jr by (intro mult_right_mono) simp_all
  then have "(2 * real j + 1) * \<bar>L\<bar> + 10 * \<bar>L\<bar> \<le> 2000010 * \<bar>L\<bar>" by linarith
  then have "((2 * real j + 1) * \<bar>L\<bar> + 10 * \<bar>L\<bar>) / 2 ^ 53 \<le> 2000010 * \<bar>L\<bar> / 2 ^ 53"
    by (rule divide_right_mono) simp
  then have "2 * (((2 * real j + 1) * \<bar>L\<bar> + 10 * \<bar>L\<bar>) / 2 ^ 53)
      \<le> 2 * (2000010 * \<bar>L\<bar> / 2 ^ 53)"
    by (rule mult_left_mono) simp
  also have "\<dots> \<le> \<bar>L\<bar> / 10 ^ 8" by simp
  finally have tol: "2 * (((2 * real j + 1) * \<bar>L\<bar> + 10 * \<bar>L\<bar>) / 2 ^ 53) \<le> \<bar>L\<bar> / 10 ^ 8" .
  have n: "\<not> (x1 - x) * (x1 - x) + (y1 - y) * (y1 - y) < 0" by (simp add: not_less)
  have X1': "pointX ((update64 ^^ Suc j) t) = Fin x1" and Y1': "pointY ((update64 ^^ Suc j) t) = Fin y1"
    using X1 Y1 by simp_all
  have "seg_length \<lparr>px = pointX ?s, py = pointY ?s\<rparr>
      \<lparr>px = pointX ((update64 ^^ Suc j) t), py = pointY ((update64 ^^ Suc j) t)\<rparr>
      = Fin (sqrt ((x1 - x) * (x1 - x) + (y1 - y) * (y1 - y)))"
    unfolding X1' Y1' X Y using n by (simp add: seg_length_def js_sub_def)
  moreover have "\<bar>sqrt ((x1 - x) * (x1 - x) + (y1 - y) * (y1 - y)) - \<bar>L\<bar>\<bar> \<le> \<bar>L\<bar> / 10 ^ 8"
    using e tol by linarith
  ultimately show ?thesis by blast
qed

text \<open>
  From the origin with heading 0 and heading increment 0, a step whose two parameters are
  doubles is free of rounding: this is the step inside \<^verbatim>\<open>reset()\<close>.
\<close>

lemma reset_step_unrounded:
  assumes "pointX s = Fin 0" and "pointY s = Fin 0" and "direction s = Fin 0"
    and "angleAddend s = Fin 0" and "stepSize s = Fin L" and "angleStepSize s = Fin d"
    and "fl64 L = Fin L" and "fl64 d = Fin d"
  shows "update64 s = update s"
  by (simp add: update64_def update_def Let_def assms Math_PI64_def Math_PI_def fl64_one)

lemma reset_unrounded:
  assumes "stepSize s = Fin L" and "angleStepSize s = Fin d"
    and "fl64 L = Fin L" and "fl64 d = Fin d"
  shows "reset s = draw (update64 (s\<lparr>ctx := ctx s @
       [SetFillStyle ''black'', FillRect (Fin 0) (Fin 0) screenWidth screenHeight],
     pointX := Fin 0, pointY := Fin 0, direction := Fin 0, angleAddend := Fin 0,
     minX := Fin 0, maxX := Fin 0, minY := Fin 0, maxY := Fin 0, points := []\<rparr>))"
  unfolding reset_is_draw_update
  by (subst reset_step_unrounded [where L = L and d = d]) (simp_all add: assms)

lemma fl64_twenty: "fl64 20 = Fin 20"
  using fl64_int [of 20] by simp

lemma fl64_ten: "fl64 10 = Fin 10"
  using fl64_int [of 10] by simp

text \<open>
  C9 (as amended). The steps are taken in binary64 arithmetic. When \<open>stepSize\<close> and
  \<open>angleStepSize\<close> hold doubles, the step inside \<^verbatim>\<open>reset()\<close> is free of rounding, so
  \<open>reset\<close> is the state the script reaches. After \<^verbatim>\<open>reset()\<close> and \<open>n\<close> further steps
  there are exactly \<open>n + 1\<close> points, \<^verbatim>\<open>reset()\<close> having taken the first step itself. For
  a step size \<open>L\<close> that is 0 or between \<open>10 ^ -100\<close> and \<open>10 ^ 100\<close> in magnitude, a delta
  of at most \<open>10 ^ 6\<close> in magnitude and at most \<open>10 ^ 6\<close> steps, every point from the
  second on is finite and lies at a distance from the one before it that differs from
  \<open>\<bar>L\<bar>\<close> by at most \<open>\<bar>L\<bar> / 10 ^ 8\<close>. The distance is the magnitude of \<open>stepSize\<close>, so a
  negative step size gives the same distance, and it is not \<open>\<bar>L\<bar>\<close> exactly: the rounded
  coordinates of two consecutive points are rarely \<open>\<bar>L\<bar>\<close> apart to the last bit.
\<close>

theorem C9_length_and_segments:
  assumes "stepSize s = Fin L" and "angleStepSize s = Fin d"
    and "fl64 L = Fin L" and "fl64 d = Fin d"
    and "1 \<le> k" and "k \<le> n" and "n \<le> 10 ^ 6"
    and "L = 0 \<or> 1 / 10 ^ 100 \<le> \<bar>L\<bar>" and "\<bar>L\<bar> \<le> 10 ^ 100" and "\<bar>d\<bar> \<le> 10 ^ 6"
  shows "length (points ((update64 ^^ n) (outcome (reset s)))) = n + 1 \<and>
         (\<exists>m. seg_length (points ((update64 ^^ n) (outcome (reset s))) ! (k - 1))
                          (points ((update64 ^^ n) (outcome (reset s))) ! k) = Fin m \<and>
              \<bar>m - \<bar>L\<bar>\<bar> \<le> \<bar>L\<bar> / 10 ^ 8)"
proof -
  let ?t = "outcome (reset s)"
  let ?f = "\<lambda>j. \<lparr>px = pointX ((update64 ^^ j) ?t), py = pointY ((update64 ^^ j) ?t)\<rparr>"
  have p: "points ((update64 ^^ n) ?t) = map ?f [0..<Suc n]" by (rule points_after_reset64)
  have len: "length (points ((update64 ^^ n) ?t)) = n + 1" unfolding p by simp
  obtain j where j: "k = Suc j" using assms(5) by (cases k) auto
  have a: "points ((update64 ^^ n) ?t) ! k = ?f (Suc j)"
    unfolding p using assms(6) j by (simp only: nth_map_upt) simp
  have b: "points ((update64 ^^ n) ?t) ! (k - 1) = ?f j"
    unfolding p using assms(6) j by (simp only: nth_map_upt) simp
  have t: "pointX ?t = Fin L" "pointY ?t = Fin 0" "direction ?t = Fin 0"
      "angleAddend ?t = Fin d" "stepSize ?t = Fin L" "angleStepSize ?t = Fin d"
    by (simp_all add: reset_walker assms(1,2) del: outcome.simps)
  have "Suc j \<le> 10 ^ 6" using j assms(6,7) by simp
  from segment64 [OF t assms(8,9,10) this]
  have "\<exists>m. seg_length (?f j) (?f (Suc j)) = Fin m \<and> \<bar>m - \<bar>L\<bar>\<bar> \<le> \<bar>L\<bar> / 10 ^ 8" .
  then have "\<exists>m. seg_length (points ((update64 ^^ n) ?t) ! (k - 1)) (points ((update64 ^^ n) ?t) ! k) =
      Fin m \<and> \<bar>m - \<bar>L\<bar>\<bar> \<le> \<bar>L\<bar> / 10 ^ 8"
    unfolding a b .
  with len show ?thesis by (rule conjI)
qed

text \<open>Reset on the loaded page and two more steps: three points, 20 apart to within 2e-7.\<close>

theorem C9_witness:
  "stepSize init = Fin 20 \<and> angleStepSize init = Fin 10 \<and> fl64 20 = Fin 20 \<and> fl64 10 = Fin 10 \<and>
   (1::nat) \<le> 1 \<and> (1::nat) \<le> 2 \<and>
   (2::nat) \<le> 10 ^ 6 \<and> ((20::real) = 0 \<or> 1 / 10 ^ 100 \<le> \<bar>20::real\<bar>) \<and>
   \<bar>20::real\<bar> \<le> 10 ^ 100 \<and> \<bar>10::real\<bar> \<le> 10 ^ 6 \<and>
   length (points ((update64 ^^ 2) (outcome (reset init)))) = 3 \<and>
   (\<exists>m. seg_length (points ((update64 ^^ 2) (outcome (reset init))) ! 0)
                    (points ((update64 ^^ 2) (outcome (reset init))) ! 1) = Fin m \<and>
        \<bar>m - 20\<bar> \<le> 20 / 10 ^ 8)"
proof -
  have i: "stepSize init = Fin 20" "angleStepSize init = Fin 10"
    by (simp_all add: init_def)
  have h: "(1::nat) \<le> 1" "(1::nat) \<le> 2" "(2::nat) \<le> 10 ^ 6"
    "(20::real) = 0 \<or> 1 / 10 ^ 100 \<le> \<bar>20::real\<bar>" "\<bar>20::real\<bar> \<le> 10 ^ 100"
    "\<bar>10::real\<bar> \<le> 10 ^ 6"
    by simp_all
  from C9_length_and_segments [OF i fl64_twenty fl64_ten h]
  have "length (points ((update64 ^^ 2) (outcome (reset init)))) = 3 \<and>
   (\<exists>m. seg_length (points ((update64 ^^ 2) (outcome (reset init))) ! 0)
                    (points ((update64 ^^ 2) (outcome (reset init))) ! 1) = Fin m \<and>
        \<bar>m - 20\<bar> \<le> 20 / 10 ^ 8)"
    by simp
  with i h fl64_twenty fl64_ten show ?thesis by blast
qed

lemma fl64_three_tenths':
  "fl64 (3602879701896397 / 2 ^ 54 + 3602879701896397 / 2 ^ 55) = Fin (5404319552844596 / 2 ^ 54)"
  using fl64_eval [where x = "10808639105689191 / 2 ^ 55" and e = "- 2" and n = 5404319552844596]
  by (simp add: power_int_minus round_half_even_def)

lemma fl64_largest_power: "fl64 (2 ^ 1023) = Fin (2 ^ 1023)"
  using fl64_eval [where x = "2 ^ 1023" and e = 1023 and n = "2 ^ 52"]
  by (simp add: power_int_minus round_half_even_def)

lemma fl64_largest_power_twice: "fl64 (2 ^ 1023 + 2 ^ 1023) = PInf"
  using fl64_overflow [where x = "2 ^ 1024" and e = 1024 and n = "2 ^ 52"]
  by (simp add: power_int_minus round_half_even_def)

text \<open>A step along heading 0 with delta 0, in binary64 arithmetic.\<close>

lemma straight_step64:
  assumes "direction s = Fin 0" and "angleAddend s = Fin 0" and "angleStepSize s = Fin 0"
    and "pointX s = Fin x" and "pointY s = Fin 0" and "stepSize s = Fin L" and "fl64 L = Fin L"
  shows "pointX (update64 s) = fl64 (x + L)" and "pointY (update64 s) = Fin 0"
    and "direction (update64 s) = Fin 0" and "angleAddend (update64 s) = Fin 0"
  by (simp_all add: update64_position Math_PI64_def assms fl64_one)

lemma straight_start64:
  "direction (stepSizeHandler (\<lambda>v. Fin L) w (directionStepSizeHandler (\<lambda>v. Fin 0) w' init)) = Fin 0"
  "angleAddend (stepSizeHandler (\<lambda>v. Fin L) w (directionStepSizeHandler (\<lambda>v. Fin 0) w' init)) = Fin 0"
  "angleStepSize (stepSizeHandler (\<lambda>v. Fin L) w (directionStepSizeHandler (\<lambda>v. Fin 0) w' init)) = Fin 0"
  "pointX (stepSizeHandler (\<lambda>v. Fin L) w (directionStepSizeHandler (\<lambda>v. Fin 0) w' init)) = Fin 0"
  "pointY (stepSizeHandler (\<lambda>v. Fin L) w (directionStepSizeHandler (\<lambda>v. Fin 0) w' init)) = Fin 0"
  "stepSize (stepSizeHandler (\<lambda>v. Fin L) w (directionStepSizeHandler (\<lambda>v. Fin 0) w' init)) = Fin L"
  "points (stepSizeHandler (\<lambda>v. Fin L) w (directionStepSizeHandler (\<lambda>v. Fin 0) w' init)) = []"
  by (simp_all add: stepSizeHandler_def directionStepSizeHandler_def init_def)

lemma straight_walk64:
  assumes "fl64 L = Fin L" and "fl64 (L + L) = x2"
  shows "points (update64 (update64
           (stepSizeHandler (\<lambda>v. Fin L) w (directionStepSizeHandler (\<lambda>v. Fin 0) w' init)))) =
           [\<lparr>px = Fin L, py = Fin 0\<rparr>, \<lparr>px = x2, py = Fin 0\<rparr>]"
    and "direction (update64 (update64
           (stepSizeHandler (\<lambda>v. Fin L) w (directionStepSizeHandler (\<lambda>v. Fin 0) w' init)))) = Fin 0"
    and "angleAddend (update64 (update64
           (stepSizeHandler (\<lambda>v. Fin L) w (directionStepSizeHandler (\<lambda>v. Fin 0) w' init)))) = Fin 0"
    and "pointX (update64 (update64
           (stepSizeHandler (\<lambda>v. Fin L) w (directionStepSizeHandler (\<lambda>v. Fin 0) w' init)))) = x2"
    and "pointY (update64 (update64
           (stepSizeHandler (\<lambda>v. Fin L) w (directionStepSizeHandler (\<lambda>v. Fin 0) w' init)))) = Fin 0"
proof -
  let ?s = "stepSizeHandler (\<lambda>v. Fin L) w (directionStepSizeHandler (\<lambda>v. Fin 0) w' init)"
  note s = straight_start64 [of L w w']
  note one = straight_step64 [OF s(1,2,3,4,5,6) assms(1)]
  have x1: "pointX (update64 ?s) = Fin L" using one(1) assms(1) by simp
  have p1: "stepSize (update64 ?s) = Fin L" "angleStepSize (update64 ?s) = Fin 0"
    by (simp_all add: s)
  note two = straight_step64 [OF one(3,4) p1(2) x1 one(2) p1(1) assms(1)]
  show x2: "pointX (update64 (update64 ?s)) = x2"
    by (simp only: two(1) assms(2))
  show y2: "pointY (update64 (update64 ?s)) = Fin 0" by (rule two(2))
  show "direction (update64 (update64 ?s)) = Fin 0" by (rule two(3))
  show "angleAddend (update64 (update64 ?s)) = Fin 0" by (rule two(4))
  show "points (update64 (update64 ?s)) = [\<lparr>px = Fin L, py = Fin 0\<rparr>, \<lparr>px = x2, py = Fin 0\<rparr>]"
    by (simp only: update64_points [of "update64 ?s"] update64_points [of ?s] s(7) x1 one(2) x2 y2
        append.simps)
qed

lemma third_straight_point64:
  assumes "fl64 L = Fin L" and "fl64 (L + L) = Fin x2" and "fl64 (x2 + L) = Fin x3"
  shows "points (update64 (update64 (update64
           (stepSizeHandler (\<lambda>v. Fin L) w (directionStepSizeHandler (\<lambda>v. Fin 0) w' init))))) =
           [\<lparr>px = Fin L, py = Fin 0\<rparr>, \<lparr>px = Fin x2, py = Fin 0\<rparr>, \<lparr>px = Fin x3, py = Fin 0\<rparr>]"
proof -
  let ?s = "stepSizeHandler (\<lambda>v. Fin L) w (directionStepSizeHandler (\<lambda>v. Fin 0) w' init)"
  note w = straight_walk64 [OF assms(1,2), of w w']
  have p: "stepSize (update64 (update64 ?s)) = Fin L" "angleStepSize (update64 (update64 ?s)) = Fin 0"
    by (simp_all add: straight_start64)
  note three = straight_step64 [OF w(2,3) p(2) w(4,5) p(1) assms(1)]
  have x3: "pointX (update64 (update64 (update64 ?s))) = Fin x3"
    by (simp only: three(1) assms(3))
  show ?thesis
    by (simp only: update64_points [of "update64 (update64 ?s)"] w(1) x3 three(2) append.simps)
qed

lemma seg_length_horizontal:
  "seg_length \<lparr>px = Fin a, py = Fin 0\<rparr> \<lparr>px = Fin b, py = Fin 0\<rparr> = Fin \<bar>b - a\<bar>"
  by (simp add: seg_length_def js_sub_def)

text \<open>
  C9 (as stated) fails in four ways. Reset on the loaded page and two steps give three
  points, not two. With step size -20 the two points after two steps are 20 apart, which
  is not the step size. In the script's doubles, with step size 0.1 (stored as
  3602879701896397 / 2^55) and delta 0, the third point is 1801439850948199 / 2^54 from
  the second, which is not the step size; and with step size 2^1023 the second point is
  at infinity.
\<close>

theorem C9_counterexample:
  "length (points (update (update (outcome (reset init))))) = 3 \<and>
   points (update (update (init\<lparr>stepSize := Fin (- 20)\<rparr>))) =
     [\<lparr>px = Fin (- 20), py = Fin 0\<rparr>, \<lparr>px = Fin (- 40), py = Fin 0\<rparr>] \<and>
   seg_length \<lparr>px = Fin (- 20), py = Fin 0\<rparr> \<lparr>px = Fin (- 40), py = Fin 0\<rparr> = Fin 20 \<and>
   stepSize (update (update (init\<lparr>stepSize := Fin (- 20)\<rparr>))) = Fin (- 20) \<and>
   points (update64 (update64 (update64
     (stepSizeHandler (\<lambda>v. Fin (3602879701896397 / 2 ^ 55)) ''0.1''
       (directionStepSizeHandler (\<lambda>v. Fin 0) ''0'' init))))) =
     [\<lparr>px = Fin (3602879701896397 / 2 ^ 55), py = Fin 0\<rparr>,
      \<lparr>px = Fin (3602879701896397 / 2 ^ 54), py = Fin 0\<rparr>,
      \<lparr>px = Fin (5404319552844596 / 2 ^ 54), py = Fin 0\<rparr>] \<and>
   seg_length \<lparr>px = Fin (3602879701896397 / 2 ^ 54), py = Fin 0\<rparr>
              \<lparr>px = Fin (5404319552844596 / 2 ^ 54), py = Fin 0\<rparr> =
     Fin (1801439850948199 / 2 ^ 54) \<and>
   (1801439850948199 / 2 ^ 54 :: real) \<noteq> \<bar>3602879701896397 / 2 ^ 55\<bar> \<and>
   points (update64 (update64
     (stepSizeHandler (\<lambda>v. Fin (2 ^ 1023)) ''8.98846567431158e307''
       (directionStepSizeHandler (\<lambda>v. Fin 0) ''0'' init)))) =
     [\<lparr>px = Fin (2 ^ 1023), py = Fin 0\<rparr>, \<lparr>px = PInf, py = Fin 0\<rparr>] \<and>
   seg_length \<lparr>px = Fin (2 ^ 1023), py = Fin 0\<rparr> \<lparr>px = PInf, py = Fin 0\<rparr> = PInf"
proof -
  have 1: "length (points (update (update (outcome (reset init))))) = 3"
    by (simp add: update_points reset_walker del: outcome.simps update_walker)
  let ?s = "init\<lparr>stepSize := Fin (- 20)\<rparr>"
  have i: "pointX ?s = Fin 0" "pointY ?s = Fin 0" "direction ?s = Fin 0" "angleAddend ?s = Fin 0"
    "stepSize ?s = Fin (- 20)" "points ?s = []"
    by (simp_all add: init_def)
  have 2: "points (update (update ?s)) = [\<lparr>px = Fin (- 20), py = Fin 0\<rparr>, \<lparr>px = Fin (- 40), py = Fin 0\<rparr>]"
    by (simp add: update_points i Math_PI_def)
  have 3: "seg_length \<lparr>px = Fin (- 20), py = Fin 0\<rparr> \<lparr>px = Fin (- 40), py = Fin 0\<rparr> = Fin 20"
    by (simp only: seg_length_horizontal) simp
  have 4: "stepSize (update (update ?s)) = Fin (- 20)" by (simp add: i)
  note 5 = third_straight_point64 [OF fl64_one_tenth fl64_two_tenths fl64_three_tenths',
      of "''0.1''" "''0''"]
  have 6: "seg_length \<lparr>px = Fin (3602879701896397 / 2 ^ 54), py = Fin 0\<rparr>
              \<lparr>px = Fin (5404319552844596 / 2 ^ 54), py = Fin 0\<rparr> =
     Fin (1801439850948199 / 2 ^ 54)"
    by (simp only: seg_length_horizontal) simp
  have 7: "(1801439850948199 / 2 ^ 54 :: real) \<noteq> \<bar>3602879701896397 / 2 ^ 55\<bar>" by simp
  note 8 = straight_walk64(1) [OF fl64_largest_power fl64_largest_power_twice,
      of "''8.98846567431158e307''" "''0''"]
  have 9: "seg_length \<lparr>px = Fin (2 ^ 1023), py = Fin 0\<rparr> \<lparr>px = PInf, py = Fin 0\<rparr> = PInf"
    by (simp add: seg_length_def js_sub_def inf_of_def)
  from 1 2 3 4 5 6 7 8 9 show ?thesis by (intro conjI)
qed

section \<open>The point transform\<close>


















section \<open>Three steps from the origin\<close>

lemma cubic_cos_diff:
  fixes u v :: real
  shows "(4 * u ^ 3 - 3 * u) - (4 * v ^ 3 - 3 * v) = (u - v) * (4 * (u * u + u * v + v * v) - 3)"
  by (simp add: power3_eq_cube algebra_simps)

lemma cubic_cos_mono:
  fixes u v :: real
  assumes "1 / 2 \<le> v" and "v \<le> u"
  shows "4 * v ^ 3 - 3 * v \<le> 4 * u ^ 3 - 3 * u"
proof -
  have u: "1 / 2 \<le> u" using assms by simp
  have "1 / 2 * (1 / 2) \<le> u * u" "1 / 2 * (1 / 2) \<le> u * v" "1 / 2 * (1 / 2) \<le> v * v"
    using assms u by (intro mult_mono; simp)+
  then have "0 \<le> 4 * (u * u + u * v + v * v) - 3" by simp
  moreover have "0 \<le> u - v" using assms by simp
  ultimately have "0 \<le> (u - v) * (4 * (u * u + u * v + v * v) - 3)"
    by (rule mult_nonneg_nonneg [rotated])
  then show ?thesis using cubic_cos_diff [of u v] by simp
qed

lemma sqrt3_bounds: "1.732 < sqrt 3 \<and> sqrt 3 < 1.7321"
proof
  show "1.732 < sqrt 3" by (rule real_less_rsqrt) (simp add: power2_eq_square)
  show "sqrt 3 < 1.7321" by (rule real_less_lsqrt) (simp_all add: power2_eq_square)
qed

lemma cos_10_bounds: "0.9848 < cos (pi / 18) \<and> cos (pi / 18) < 0.985"
proof -
  let ?c = "cos (pi / 18)"
  have half: "1 / 2 \<le> ?c"
  proof -
    have "cos (pi / 3) \<le> cos (pi / 18)" by (rule cos_monotone_0_pi_le) simp_all
    then show ?thesis by (simp add: cos_60)
  qed
  have "cos (3 * (pi / 18)) = 4 * ?c ^ 3 - 3 * ?c" by (rule cos_treble_cos)
  moreover have "3 * (pi / 18) = pi / 6" by simp
  ultimately have eq: "4 * ?c ^ 3 - 3 * ?c = sqrt 3 / 2" by (simp only: cos_30)
  have lo: "0.9848 < ?c"
  proof (rule ccontr)
    assume "\<not> 0.9848 < ?c"
    then have "?c \<le> 0.9848" by simp
    from cubic_cos_mono [OF half this] have "sqrt 3 / 2 \<le> 4 * 0.9848 ^ 3 - 3 * 0.9848"
      by (simp only: eq)
    also have "\<dots> < 0.866" by (simp add: power3_eq_cube)
    finally show False using sqrt3_bounds by simp
  qed
  have hi: "?c < 0.985"
  proof (rule ccontr)
    assume "\<not> ?c < 0.985"
    then have "0.985 \<le> ?c" by simp
    have "(0.8676::real) < 4 * 0.985 ^ 3 - 3 * 0.985" by (simp add: power3_eq_cube)
    also have "\<dots> \<le> 4 * ?c ^ 3 - 3 * ?c" by (rule cubic_cos_mono) (simp, fact)
    finally show False using sqrt3_bounds by (simp add: eq)
  qed
  from lo hi show ?thesis by simp
qed

lemma sin_treble_sin: "sin (3 * x) = 3 * sin x - 4 * sin x ^ 3" for x :: real
proof -
  have c: "cos x * cos x = 1 - sin x * sin x"
    by (simp add: eq_diff_eq)
  have "sin (3 * x) = sin (x + 2 * x)" by simp
  also have "\<dots> = sin x * cos (2 * x) + cos x * sin (2 * x)" by (rule sin_add)
  also have "\<dots> = sin x * (cos x * cos x - sin x * sin x) + 2 * sin x * (cos x * cos x)"
    by (simp add: cos_double sin_double power2_eq_square)
  also have "\<dots> = 3 * sin x - 4 * sin x ^ 3"
    unfolding c by (simp add: power3_eq_cube algebra_simps)
  finally show ?thesis .
qed

lemma cubic_sin_mono:
  fixes u v :: real
  assumes "0 \<le> v" and "v \<le> u" and "u \<le> 1 / 2"
  shows "3 * v - 4 * v ^ 3 \<le> 3 * u - 4 * u ^ 3"
proof -
  have u: "0 \<le> u" and v: "v \<le> 1 / 2" using assms by simp_all
  have "u * u \<le> 1 / 2 * (1 / 2)" "u * v \<le> 1 / 2 * (1 / 2)" "v * v \<le> 1 / 2 * (1 / 2)"
    using assms u v by (intro mult_mono; simp)+
  then have "0 \<le> 3 - 4 * (u * u + u * v + v * v)" by simp
  moreover have "0 \<le> u - v" using assms by simp
  ultimately have "0 \<le> (u - v) * (3 - 4 * (u * u + u * v + v * v))"
    by (rule mult_nonneg_nonneg [rotated])
  also have "\<dots> = (3 * u - 4 * u ^ 3) - (3 * v - 4 * v ^ 3)"
    by (simp add: power3_eq_cube algebra_simps)
  finally show ?thesis by simp
qed

lemma sin_10_bounds: "0.1733 < sin (pi / 18) \<and> sin (pi / 18) < 0.1737"
proof -
  let ?s = "sin (pi / 18)"
  have nonneg: "0 \<le> ?s" by (rule sin_ge_zero) simp_all
  have half: "?s \<le> 1 / 2"
  proof -
    have "sin (pi / 18) \<le> sin (pi / 6)" by (rule sin_monotone_2pi_le) simp_all
    then show ?thesis by (simp add: sin_30)
  qed
  have "sin (3 * (pi / 18)) = 3 * ?s - 4 * ?s ^ 3" by (rule sin_treble_sin)
  moreover have "3 * (pi / 18) = pi / 6" by simp
  ultimately have eq: "3 * ?s - 4 * ?s ^ 3 = 1 / 2" by (simp only: sin_30)
  have lo: "0.1733 < ?s"
  proof (rule ccontr)
    assume "\<not> 0.1733 < ?s"
    then have "?s \<le> 0.1733" by simp
    from cubic_sin_mono [OF nonneg this] have "1 / 2 \<le> 3 * 0.1733 - 4 * (0.1733::real) ^ 3"
      by (simp only: eq) simp
    then show False by (simp add: power3_eq_cube)
  qed
  have hi: "?s < 0.1737"
  proof (rule ccontr)
    assume "\<not> ?s < 0.1737"
    then have "0.1737 \<le> ?s" by simp
    from cubic_sin_mono [OF _ this half] have "3 * 0.1737 - 4 * (0.1737::real) ^ 3 \<le> 1 / 2"
      by (simp only: eq) simp
    then show False by (simp add: power3_eq_cube)
  qed
  from lo hi show ?thesis by simp
qed


text \<open>
  C6 (as amended). With step size 20 and delta 10, from the walker at the origin with
  heading and increment 0, no points and the extent at the origin, three steps give
  (20, 0), then (40, 0), then (40 + 20 cos 10\<degree>, 20 sin 10\<degree>), which is (59.70, 3.47)
  to two decimals; the extent is then 0 to that last x and 0 to that last y. The first
  two steps both use heading 0.
\<close>

theorem C6_three_steps_from_origin:
  assumes "fresh_generator s" and "extent s = origin_box"
    and "stepSize s = Fin 20" and "angleStepSize s = Fin 10"
  shows "\<exists>x2 y2.
     points (update (update (update s))) =
       [\<lparr>px = Fin 20, py = Fin 0\<rparr>, \<lparr>px = Fin 40, py = Fin 0\<rparr>, \<lparr>px = Fin x2, py = Fin y2\<rparr>] \<and>
     x2 = 40 + 20 * cos (10 * pi / 180) \<and> y2 = 20 * sin (10 * pi / 180) \<and>
     \<bar>x2 - 59.70\<bar> \<le> 0.005 \<and> \<bar>y2 - 3.47\<bar> \<le> 0.005 \<and>
     extent (update (update (update s))) = (Fin 0, Fin x2, Fin 0, Fin y2)"
proof -
  define x2 :: real where "x2 = 40 + 20 * cos (pi / 18)"
  define y2 :: real where "y2 = 20 * sin (pi / 18)"
  have w: "pointX s = Fin 0" "pointY s = Fin 0" "direction s = Fin 0" "angleAddend s = Fin 0"
    "points s = []"
    using assms(1) by (simp_all add: fresh_generator_def)
  have e: "minX s = Fin 0" "maxX s = Fin 0" "minY s = Fin 0" "maxY s = Fin 0"
    using assms(2) by (simp_all add: extent_def origin_box_def)
  have c: "0.9848 < cos (pi / 18)" "cos (pi / 18) < 0.985"
    using cos_10_bounds by simp_all
  have sn: "0.1733 < sin (pi / 18)" "sin (pi / 18) < 0.1737"
    using sin_10_bounds by simp_all
  have bx: "\<bar>x2 - 59.70\<bar> \<le> 0.005"
    unfolding x2_def
  proof (rule abs_leI)
    show "40 + 20 * cos (pi / 18) - 59.70 \<le> 0.005" using c(2) by simp
    show "- (40 + 20 * cos (pi / 18) - 59.70) \<le> 0.005" using c(1) by simp
  qed
  have by': "\<bar>y2 - 3.47\<bar> \<le> 0.005"
    unfolding y2_def
  proof (rule abs_leI)
    show "20 * sin (pi / 18) - 3.47 \<le> 0.005" using sn(2) by simp
    show "- (20 * sin (pi / 18) - 3.47) \<le> 0.005" using sn(1) by simp
  qed
  have pos: "40 \<le> x2" "0 \<le> y2"
    using c(1) sn(1) by (simp_all add: x2_def y2_def)
  have p3: "pointX (update (update (update s))) = Fin x2"
    "pointY (update (update (update s))) = Fin y2"
    by (simp_all add: w assms(3,4) Math_PI_def x2_def y2_def)
  have p2: "pointX (update (update s)) = Fin 40" "pointY (update (update s)) = Fin 0"
    by (simp_all add: w assms(3,4) Math_PI_def)
  have p1: "pointX (update s) = Fin 20" "pointY (update s) = Fin 0"
    by (simp_all add: w assms(3,4) Math_PI_def)
  have pts: "points (update (update (update s))) =
       [\<lparr>px = Fin 20, py = Fin 0\<rparr>, \<lparr>px = Fin 40, py = Fin 0\<rparr>, \<lparr>px = Fin x2, py = Fin y2\<rparr>]"
    by (simp only: update_points [of "update (update s)"] update_points [of "update s"]
        update_points [of s] p1 p2 p3 w append.simps)
  have ext: "extent (update (update (update s))) = (Fin 0, Fin x2, Fin 0, Fin y2)"
    using pos
    by (simp only: extent_def update_extent [of "update (update s)"] update_extent [of "update s"]
        update_extent [of s] p1 p2 p3 e) simp
  have "10 * pi / 180 = pi / 18" by simp
  then have "x2 = 40 + 20 * cos (10 * pi / 180)" "y2 = 20 * sin (10 * pi / 180)"
    by (simp_all only: x2_def y2_def)
  with pts ext bx by' show ?thesis by blast
qed

text \<open>
  The loaded state with the extent set to the origin, as \<^verbatim>\<open>reset()\<close> sets it before
  its own step.
\<close>

theorem C6_witness:
  "fresh_generator (init\<lparr>minX := Fin 0, maxX := Fin 0, minY := Fin 0, maxY := Fin 0\<rparr>) \<and>
   extent (init\<lparr>minX := Fin 0, maxX := Fin 0, minY := Fin 0, maxY := Fin 0\<rparr>) = origin_box \<and>
   stepSize (init\<lparr>minX := Fin 0, maxX := Fin 0, minY := Fin 0, maxY := Fin 0\<rparr>) = Fin 20 \<and>
   angleStepSize (init\<lparr>minX := Fin 0, maxX := Fin 0, minY := Fin 0, maxY := Fin 0\<rparr>) = Fin 10 \<and>
   length (points (update (update (update
     (init\<lparr>minX := Fin 0, maxX := Fin 0, minY := Fin 0, maxY := Fin 0\<rparr>))))) = 3 \<and>
   points (update (update (update
     (init\<lparr>minX := Fin 0, maxX := Fin 0, minY := Fin 0, maxY := Fin 0\<rparr>)))) ! 1 =
     \<lparr>px = Fin 40, py = Fin 0\<rparr> \<and>
   minX (update (update (update
     (init\<lparr>minX := Fin 0, maxX := Fin 0, minY := Fin 0, maxY := Fin 0\<rparr>)))) = Fin 0"
proof -
  let ?s = "init\<lparr>minX := Fin 0, maxX := Fin 0, minY := Fin 0, maxY := Fin 0\<rparr>"
  have h: "fresh_generator ?s" "extent ?s = origin_box" "stepSize ?s = Fin 20"
    "angleStepSize ?s = Fin 10"
    by (simp_all add: fresh_generator_def extent_def origin_box_def init_def)
  from C6_three_steps_from_origin [OF h] obtain x2 y2 where
    p: "points (update (update (update ?s))) =
       [\<lparr>px = Fin 20, py = Fin 0\<rparr>, \<lparr>px = Fin 40, py = Fin 0\<rparr>, \<lparr>px = Fin x2, py = Fin y2\<rparr>]"
    and e: "extent (update (update (update ?s))) = (Fin 0, Fin x2, Fin 0, Fin y2)"
    by blast
  from e have m: "minX (update (update (update ?s))) = Fin 0"
    by (simp only: extent_def prod.inject)
  show ?thesis unfolding p m using h by simp
qed

text \<open>
  C6 (as stated) fails: the second point is (40, 0), both for three steps on the loaded
  page and for two steps after \<^verbatim>\<open>reset()\<close>; it is not (20, 0) moved by 20 along
  10\<degree>, and not (39.70, 3.47) to two decimals.
\<close>

theorem C6_counterexample:
  "points (update (update (update init))) ! 1 = \<lparr>px = Fin 40, py = Fin 0\<rparr> \<and>
   points (update (update (outcome (reset init)))) ! 1 = \<lparr>px = Fin 40, py = Fin 0\<rparr> \<and>
   \<not> \<bar>(40::real) - 39.70\<bar> \<le> 0.005 \<and> \<not> \<bar>(0::real) - 3.47\<bar> \<le> 0.005 \<and>
   \<lparr>px = Fin 40, py = Fin 0\<rparr> \<noteq>
     \<lparr>px = Fin (20 + 20 * cos (10 * pi / 180)), py = Fin (0 + 20 * sin (10 * pi / 180))\<rparr>"
proof -
  have i: "pointX init = Fin 0" "pointY init = Fin 0" "direction init = Fin 0"
    "angleAddend init = Fin 0" "points init = []" "stepSize init = Fin 20"
    "angleStepSize init = Fin 10"
    by (simp_all add: init_def)
  have 1: "points (update (update (update init))) ! 1 = \<lparr>px = Fin 40, py = Fin 0\<rparr>"
    by (simp add: update_points i Math_PI_def)
  let ?r = "outcome (reset init)"
  have r: "points ?r = [\<lparr>px = Fin 20, py = Fin 0\<rparr>]" "pointX ?r = Fin 20" "pointY ?r = Fin 0"
    "direction ?r = Fin 0" "stepSize ?r = Fin 20"
    by (simp_all only: reset_is_draw_update draw_keeps_walker)
       (simp_all add: update_points i Math_PI_def init_def)
  have 2: "points (update (update ?r)) ! 1 = \<lparr>px = Fin 40, py = Fin 0\<rparr>"
    by (simp add: update_points r Math_PI_def del: outcome.simps)
  have "10 * pi / 180 = pi / 18" by simp
  then have "sin (10 * pi / 180) \<noteq> 0" using sin_10_bounds by simp
  then have 3: "\<lparr>px = Fin 40, py = Fin 0\<rparr> \<noteq>
     \<lparr>px = Fin (20 + 20 * cos (10 * pi / 180)), py = Fin (0 + 20 * sin (10 * pi / 180))\<rparr>"
    by simp
  have 4: "\<not> \<bar>(40::real) - 39.70\<bar> \<le> 0.005" "\<not> \<bar>(0::real) - 3.47\<bar> \<le> 0.005"
    by simp_all
  from 1 2 3 4 show ?thesis by blast
qed


end
